theory Spec2Isabelle
  imports Complex_Main "HOL-Library.AList"
begin

section \<open>Header text and its normal form\<close>

text \<open>
  A header is a Python \<^verbatim>\<open>str\<close>. A character is modelled by a \<^typ>\<open>char\<close> holding its code
  point, for code points below 256 (ASCII and Latin-1; the label \<^verbatim>\<open>OT Amt 1\<close> followed by the
  vulgar fraction one half, code point \<^verbatim>\<open>0xBD\<close>, lies in that range).
  \<^verbatim>\<open>str.lower()\<close> maps \<^verbatim>\<open>A\<close>..\<^verbatim>\<open>Z\<close> and the Latin-1 capitals
  \<^verbatim>\<open>0xC0\<close>..\<^verbatim>\<open>0xDE\<close> (the multiplication sign \<^verbatim>\<open>0xD7\<close> apart) to the
  code point 32 above and leaves every other character of the range alone.
\<close>

definition is_upper :: "char \<Rightarrow> bool" where
  "is_upper c =
     (let n = (of_char c :: nat)
      in (65 \<le> n \<and> n \<le> 90) \<or> (192 \<le> n \<and> n \<le> 222 \<and> n \<noteq> 215))"

definition lower_char :: "char \<Rightarrow> char" where
  "lower_char c = (if is_upper c then char_of (of_char c + 32 :: nat) else c)"

definition lower :: "string \<Rightarrow> string" where
  "lower s = map lower_char s"

text \<open>The character class \<^verbatim>\<open>[a-z]\<close> of the regular expression.\<close>

definition is_az :: "char \<Rightarrow> bool" where
  "is_az c = (let n = (of_char c :: nat) in 97 \<le> n \<and> n \<le> 122)"

text \<open>
  \<^verbatim>\<open>re.sub(r"[^a-z]", "", s.lower())\<close>: lowercase first, then delete every character outside
  \<^verbatim>\<open>a\<close>..\<^verbatim>\<open>z\<close>. Both \<^verbatim>\<open>sum_norm\<close> and \<^verbatim>\<open>match_cost_center_column\<close> compute
  this key for the target and for the header.
\<close>

definition norm_key :: "string \<Rightarrow> string" where
  "norm_key s = filter is_az (lower s)"

text \<open>
  The normal form in the words of the specification: remove every character that is not an
  ASCII letter, and lowercase.
\<close>

definition is_ascii_letter :: "char \<Rightarrow> bool" where
  "is_ascii_letter c =
     (let n = (of_char c :: nat) in (65 \<le> n \<and> n \<le> 90) \<or> (97 \<le> n \<and> n \<le> 122))"

definition letters_lowercased :: "string \<Rightarrow> string" where
  "letters_lowercased s = lower (filter is_ascii_letter s)"

section \<open>Cells, columns and tables\<close>

text \<open>
  A cell of the sheet is blank (pandas' \<^verbatim>\<open>NaN\<close>, \<^verbatim>\<open>NaT\<close> or \<^verbatim>\<open>None\<close>), a number, a
  text or a date. Amounts are exact reals: the rounding error of binary floating point is
  outside the model. A \<^verbatim>\<open>Series\<close> is the list of its cells in row order, and a
  \<^verbatim>\<open>DataFrame\<close> is the list of its labelled columns in sheet order.
\<close>

type_synonym timestamp = "nat \<times> nat \<times> nat"

datatype cell = Empty | is_Num: Num (the_num: real) | Str string | Date timestamp

type_synonym series = "cell list"

type_synonym frame = "(string \<times> series) list"

text \<open>
  The exceptions of the script. \<open>KeyError\<close> carries the missing label; \<open>ValueError\<close>
  carries the text that could not be read or a note on the cause, not Python's message.
\<close>

datatype error =
    KeyError string
  | AttributeError
  | ValueError string
  | NonNumeric
  | CostCenterNotFound

definition columns :: "frame \<Rightarrow> string list" where
  "columns df = map fst df"

text \<open>\<^verbatim>\<open>len(df)\<close>, the number of rows, read off the first column.\<close>

definition len :: "frame \<Rightarrow> nat" where
  "len df = (case df of [] \<Rightarrow> 0 | (label, s) # rest \<Rightarrow> length s)"

text \<open>
  The tables pandas builds here: no two columns share a label and every column has one cell
  per row.
\<close>

definition wf_frame :: "frame \<Rightarrow> bool" where
  "wf_frame df = (distinct (columns df) \<and> list_all (\<lambda>(label, s). length s = len df) df)"

text \<open>\<^verbatim>\<open>df[label]\<close> raises \<^verbatim>\<open>KeyError\<close> on an absent label.\<close>

definition getitem :: "frame \<Rightarrow> string \<Rightarrow> error + series" where
  "getitem df label = (case map_of df label of None \<Rightarrow> Inl (KeyError label) | Some s \<Rightarrow> Inr s)"

text \<open>
  \<^verbatim>\<open>df[label] = s\<close> replaces the column in place when the label exists and appends a new
  last column otherwise.
\<close>

definition setitem :: "frame \<Rightarrow> string \<Rightarrow> series \<Rightarrow> frame" where
  "setitem df label s = AList.update label s df"

text \<open>\<^verbatim>\<open>s[mask]\<close> and \<^verbatim>\<open>df[mask]\<close>: the rows at which the boolean mask is true.\<close>

definition select :: "bool list \<Rightarrow> 'a list \<Rightarrow> 'a list" where
  "select keep s = map fst (filter snd (zip s keep))"

definition select_rows :: "bool list \<Rightarrow> frame \<Rightarrow> frame" where
  "select_rows keep df = map (\<lambda>(label, s). (label, select keep s)) df"

section \<open>The cost-center resolver\<close>

definition acceptable :: "string list" where
  "acceptable = [''C/Center'', ''Cost Center'', ''Center'', ''C Center'', ''C-Center'']"

text \<open>
  The dict comprehension \<^verbatim>\<open>{col: norm(col) for col in columns}\<close>: a dict keeps the position
  of the first insertion of a key and the value of the last.
\<close>

definition norm_map :: "string list \<Rightarrow> (string \<times> string) list" where
  "norm_map cols = foldl (\<lambda>m col. AList.update col (norm_key col) m) [] cols"

fun match_loop :: "string list \<Rightarrow> (string \<times> string) list \<Rightarrow> string option" where
  "match_loop [] items = None"
| "match_loop (tgt # rest) items =
     (case find (\<lambda>(orig, key). key = norm_key tgt) items of
        Some (orig, key) \<Rightarrow> Some orig
      | None \<Rightarrow> match_loop rest items)"

definition match_cost_center_column :: "string list \<Rightarrow> string option" where
  "match_cost_center_column cols = match_loop acceptable (norm_map cols)"

text \<open>
  Lines 100 to 103: \<^verbatim>\<open>if not cost_col\<close> is true of \<^verbatim>\<open>None\<close> and of the empty string, and
  then the session reports the error and stops.
\<close>

definition find_cost_col :: "string list \<Rightarrow> error + string" where
  "find_cost_col cols =
     (case match_cost_center_column cols of
        None \<Rightarrow> Inl CostCenterNotFound
      | Some cost_col \<Rightarrow> if cost_col = [] then Inl CostCenterNotFound else Inr cost_col)"

text \<open>
  The resolver in the words of the specification: the first acceptable spelling, in priority
  order, that some header matches, and for it the first header that matches.
\<close>

definition first_header_by_priority :: "string list \<Rightarrow> string list \<Rightarrow> string option" where
  "first_header_by_priority targets cols =
     (case find (\<lambda>t. list_ex (\<lambda>c. norm_key c = norm_key t) cols) targets of
        None \<Rightarrow> None
      | Some t \<Rightarrow> find (\<lambda>c. norm_key c = norm_key t) cols)"

section \<open>The row filter\<close>

text \<open>
  Line 107: the rows whose cost-center cell equals the selected department. A blank cell
  equals nothing.
\<close>

definition select_department :: "string \<Rightarrow> cell \<Rightarrow> frame \<Rightarrow> error + frame" where
  "select_department cost_col sel_dept df_raw =
     (case getitem df_raw cost_col of
        Inl e \<Rightarrow> Inl e
      | Inr s \<Rightarrow> Inr (select_rows (map (\<lambda>c. c \<noteq> Empty \<and> c = sel_dept) s) df_raw))"

text \<open>
  \<^verbatim>\<open>pd.to_datetime(s, errors="coerce")\<close>. The date parser belongs to pandas, not to this
  repository, and is a parameter: \<open>parse_date s c\<close> is the date pandas reads in the text or
  number \<open>c\<close> of the column \<open>s\<close>, or \<open>None\<close> when it reads none (the column is passed along
  because pandas may settle on one date format for a whole column). What the call fixes is
  modelled: a blank stays blank, a date stays a date, and with \<^verbatim>\<open>errors="coerce"\<close> a value
  that does not parse becomes the missing date \<^verbatim>\<open>NaT\<close>.
\<close>

type_synonym date_parser = "series \<Rightarrow> cell \<Rightarrow> timestamp option"

definition coerce_date :: "(cell \<Rightarrow> timestamp option) \<Rightarrow> cell \<Rightarrow> cell" where
  "coerce_date parse c =
     (case c of
        Empty \<Rightarrow> Empty
      | Date d \<Rightarrow> Date d
      | _ \<Rightarrow> (case parse c of None \<Rightarrow> Empty | Some d \<Rightarrow> Date d))"

definition to_datetime :: "date_parser \<Rightarrow> series \<Rightarrow> series" where
  "to_datetime parse_date s = map (coerce_date (parse_date s)) s"

definition isna :: "series \<Rightarrow> bool list" where
  "isna s = map (\<lambda>c. c = Empty) s"

text \<open>Lines 110 and 111: both columns are read with \<^verbatim>\<open>df[...]\<close>, \<^verbatim>\<open>Joined\<close> first.\<close>

definition parse_dates :: "date_parser \<Rightarrow> frame \<Rightarrow> error + frame" where
  "parse_dates parse_date df =
     (case getitem df ''Joined'' of
        Inl e \<Rightarrow> Inl e
      | Inr joined \<Rightarrow>
          let df1 = setitem df ''Joined'' (to_datetime parse_date joined) in
          (case getitem df1 ''Resign'' of
             Inl e \<Rightarrow> Inl e
           | Inr resign \<Rightarrow> Inr (setitem df1 ''Resign'' (to_datetime parse_date resign))))"

text \<open>Lines 110 to 112: the rows whose \<^verbatim>\<open>Resign\<close> is missing after the coercion stay.\<close>

definition drop_resigned :: "date_parser \<Rightarrow> frame \<Rightarrow> error + frame" where
  "drop_resigned parse_date df =
     (case parse_dates parse_date df of
        Inl e \<Rightarrow> Inl e
      | Inr df2 \<Rightarrow>
          (case getitem df2 ''Resign'' of
             Inl e \<Rightarrow> Inl e
           | Inr resign \<Rightarrow> Inr (select_rows (isna resign) df2)))"

text \<open>
  A date parser to evaluate the filter with: it reads the ISO form \<^verbatim>\<open>YYYY-MM-DD\<close>, which
  pandas reads too, and nothing else.
\<close>

definition is_digit :: "char \<Rightarrow> bool" where
  "is_digit c = (let n = (of_char c :: nat) in 48 \<le> n \<and> n \<le> 57)"

definition nat_of_digits :: "string \<Rightarrow> nat" where
  "nat_of_digits s = foldl (\<lambda>acc c. 10 * acc + (of_char c - 48)) 0 s"

definition iso_date :: date_parser where
  "iso_date s c =
     (case c of
        Str [y1, y2, y3, y4, h1, m1, m2, h2, d1, d2] \<Rightarrow>
          (let m = nat_of_digits [m1, m2]; d = nat_of_digits [d1, d2]
           in if list_all is_digit [y1, y2, y3, y4, m1, m2, d1, d2] \<and> h1 = CHR ''-'' \<and> h2 = CHR ''-''
                 \<and> 1 \<le> m \<and> m \<le> 12 \<and> 1 \<le> d \<and> d \<le> 31
              then Some (nat_of_digits [y1, y2, y3, y4], m, d) else None)
      | _ \<Rightarrow> None)"

section \<open>The payroll aggregator\<close>

definition ignore :: "string \<Rightarrow> string list" where
  "ignore cost_col = [''Name'', ''Emp No'', cost_col, ''Joined'', ''Resign'']"

text \<open>
  \<^verbatim>\<open>pd.to_numeric(s, errors="coerce")\<close> followed by \<^verbatim>\<open>.fillna(0)\<close>. The number parser is
  pandas' and a parameter as well: \<open>parse_num c\<close> is the number pandas reads in the text or
  date \<open>c\<close>. A number stays itself, a blank stays blank, and what does not parse becomes
  \<^verbatim>\<open>NaN\<close>, which \<^verbatim>\<open>fillna(0)\<close> then replaces by zero.
\<close>

definition coerce_num :: "(cell \<Rightarrow> real option) \<Rightarrow> cell \<Rightarrow> cell" where
  "coerce_num parse_num c =
     (case c of
        Empty \<Rightarrow> Empty
      | Num x \<Rightarrow> Num x
      | _ \<Rightarrow> (case parse_num c of None \<Rightarrow> Empty | Some x \<Rightarrow> Num x))"

definition to_numeric :: "(cell \<Rightarrow> real option) \<Rightarrow> series \<Rightarrow> series" where
  "to_numeric parse_num s = map (coerce_num parse_num) s"

definition fillna0 :: "series \<Rightarrow> series" where
  "fillna0 s = map (\<lambda>c. if c = Empty then Num 0 else c) s"

text \<open>Lines 115 to 117: every column whose label is not in the ignore list is made numeric.\<close>

definition numeric_conversion :: "(cell \<Rightarrow> real option) \<Rightarrow> string \<Rightarrow> frame \<Rightarrow> frame" where
  "numeric_conversion parse_num cost_col df =
     map (\<lambda>(label, s).
            if label \<in> set (ignore cost_col) then (label, s)
            else (label, fillna0 (to_numeric parse_num s))) df"

text \<open>
  \<^verbatim>\<open>df.get(label, 0)\<close> is the column when the label exists and the scalar \<^verbatim>\<open>0\<close> otherwise,
  so the operands of the sums are scalars or columns.
\<close>

datatype operand = Scalar real | Column series

definition df_get :: "frame \<Rightarrow> string \<Rightarrow> operand" where
  "df_get df label = (case map_of df label of None \<Rightarrow> Scalar 0 | Some s \<Rightarrow> Column s)"

text \<open>
  Arithmetic is modelled on columns of numbers. What pandas does with a column that holds a
  blank, a text or a date depends on the cells, and is not modelled: the result is
  \<open>NonNumeric\<close>. The pipeline never gets there, since the numeric conversion leaves numbers
  only in every column it adds up.
\<close>

definition floats :: "series \<Rightarrow> error + real list" where
  "floats s = (if list_all is_Num s then Inr (map the_num s) else Inl NonNumeric)"

fun arith :: "(real \<Rightarrow> real \<Rightarrow> real) \<Rightarrow> operand \<Rightarrow> operand \<Rightarrow> error + operand" where
  "arith f (Scalar a) (Scalar b) = Inr (Scalar (f a b))"
| "arith f (Scalar a) (Column t) =
     (case floats t of Inl e \<Rightarrow> Inl e | Inr ys \<Rightarrow> Inr (Column (map (\<lambda>y. Num (f a y)) ys)))"
| "arith f (Column s) (Scalar b) =
     (case floats s of Inl e \<Rightarrow> Inl e | Inr xs \<Rightarrow> Inr (Column (map (\<lambda>x. Num (f x b)) xs)))"
| "arith f (Column s) (Column t) =
     (case floats s of
        Inl e \<Rightarrow> Inl e
      | Inr xs \<Rightarrow>
          (case floats t of
             Inl e \<Rightarrow> Inl e
           | Inr ys \<Rightarrow> Inr (Column (map (\<lambda>(x, y). Num (f x y)) (zip xs ys)))))"

definition add :: "operand \<Rightarrow> operand \<Rightarrow> error + operand" where
  "add = arith (\<lambda>x y. x + y)"

definition sub :: "operand \<Rightarrow> operand \<Rightarrow> error + operand" where
  "sub = arith (\<lambda>x y. x - y)"

text \<open>\<^verbatim>\<open>a + b + c + ...\<close>, from the left.\<close>

definition add_all :: "operand list \<Rightarrow> error + operand" where
  "add_all ops =
     (case ops of
        [] \<Rightarrow> Inr (Scalar 0)
      | x # rest \<Rightarrow> foldl (\<lambda>acc y. case acc of Inl e \<Rightarrow> Inl e | Inr a \<Rightarrow> add a y) (Inr x) rest)"

text \<open>\<^verbatim>\<open>df[label] = value\<close>: a scalar fills every row.\<close>

definition assign :: "frame \<Rightarrow> string \<Rightarrow> operand \<Rightarrow> frame" where
  "assign df label v =
     (case v of
        Scalar a \<Rightarrow> setitem df label (replicate (len df) (Num a))
      | Column s \<Rightarrow> setitem df label s)"

text \<open>The label \<^verbatim>\<open>OT Amt 1\<close> followed by the character one half.\<close>

definition ot_amt :: string where
  "ot_amt = ''OT Amt 1'' @ [CHR 0xBD]"

definition earnings :: "string list" where
  "earnings =
     [''M/Basic'', ot_amt, ''MEC'', ''ALL'', ''OVT'', ''MS'', ''NS'', ''ICP'',
      ''BAC'', ''BSC'', ''BBB'', ''BAL'', ''BOT'', ''CSN'']"

definition deductions :: "string list" where
  "deductions = [''EPF'', ''Socso'', ''EIS'', ''PCB'']"

text \<open>
  \<^verbatim>\<open>df[labels].sum(axis=1)\<close>: the sum of each row over the listed columns, a blank counting
  as zero.
\<close>

fun getitems :: "frame \<Rightarrow> string list \<Rightarrow> error + series list" where
  "getitems df [] = Inr []"
| "getitems df (label # rest) =
     (case getitem df label of
        Inl e \<Rightarrow> Inl e
      | Inr s \<Rightarrow> (case getitems df rest of Inl e \<Rightarrow> Inl e | Inr ss \<Rightarrow> Inr (s # ss)))"

fun all_floats :: "series list \<Rightarrow> error + real list list" where
  "all_floats [] = Inr []"
| "all_floats (s # ss) =
     (case floats s of
        Inl e \<Rightarrow> Inl e
      | Inr xs \<Rightarrow> (case all_floats ss of Inl e \<Rightarrow> Inl e | Inr xss \<Rightarrow> Inr (xs # xss)))"

definition row_sums :: "nat \<Rightarrow> real list list \<Rightarrow> real list" where
  "row_sums n xss = foldl (\<lambda>acc xs. map (\<lambda>(a, x). a + x) (zip acc xs)) (replicate n 0) xss"

definition sum_axis1 :: "frame \<Rightarrow> string list \<Rightarrow> error + series" where
  "sum_axis1 df labels =
     (case getitems df labels of
        Inl e \<Rightarrow> Inl e
      | Inr ss \<Rightarrow>
          (case all_floats (map fillna0 ss) of
             Inl e \<Rightarrow> Inl e
           | Inr xss \<Rightarrow> Inr (map Num (row_sums (len df) xss))))"

text \<open>Lines 120 to 135.\<close>

definition payroll_summary :: "frame \<Rightarrow> error + frame" where
  "payroll_summary df =
     (case add_all (map (df_get df) earnings) of
        Inl e \<Rightarrow> Inl e
      | Inr gross \<Rightarrow>
          let df1 = assign df ''Gross Pay'' gross;
              df2 = assign df1 ''EPF'' (df_get df1 ''EPF'');
              df3 = assign df2 ''Socso'' (df_get df2 ''Socso'');
              df4 = assign df3 ''EIS'' (df_get df3 ''EIS'');
              df5 = assign df4 ''PCB'' (df_get df4 ''PCB'')
          in (case sum_axis1 df5 deductions of
                Inl e \<Rightarrow> Inl e
              | Inr deduction \<Rightarrow>
                  let df6 = setitem df5 ''Total Deduction'' deduction in
                  (case getitem df6 ''Gross Pay'' of
                     Inl e \<Rightarrow> Inl e
                   | Inr g \<Rightarrow>
                       (case getitem df6 ''Total Deduction'' of
                          Inl e \<Rightarrow> Inl e
                        | Inr t \<Rightarrow>
                            (case sub (Column g) (Column t) of
                               Inl e \<Rightarrow> Inl e
                             | Inr net \<Rightarrow> Inr (assign df6 ''Net Pay'' net))))))"

text \<open>
  Lines 114 to 135: the numeric conversion and the payroll summary, on a table whose labels
  are distinct. What line 117 does on a repeated label is \<open>convert_numeric\<close> below.
\<close>

definition aggregate :: "(cell \<Rightarrow> real option) \<Rightarrow> string \<Rightarrow> frame \<Rightarrow> error + frame" where
  "aggregate parse_num cost_col df = payroll_summary (numeric_conversion parse_num cost_col df)"

section \<open>The column matcher\<close>

text \<open>
  \<^verbatim>\<open>Series.sum()\<close> skips blanks. The sum of a column that holds a text or a date is not
  modelled (see \<open>floats\<close>).
\<close>

definition series_sum :: "series \<Rightarrow> error + real" where
  "series_sum s = (case floats (fillna0 s) of Inl e \<Rightarrow> Inl e | Inr xs \<Rightarrow> Inr (sum_list xs))"

text \<open>
  Lines 38 to 49: the outer loop runs over the targets, the inner loop over the columns, and
  the first hit returns.
\<close>

fun sum_norm :: "frame \<Rightarrow> string list \<Rightarrow> error + real" where
  "sum_norm df [] = Inr 0"
| "sum_norm df (target # rest) =
     (case find (\<lambda>col. norm_key col = norm_key target) (columns df) of
        Some col \<Rightarrow> (case getitem df col of Inl e \<Rightarrow> Inl e | Inr s \<Rightarrow> series_sum s)
      | None \<Rightarrow> sum_norm df rest)"

text \<open>
  The matcher in the words of the specification: the sum of the first column whose
  normalized name equals some target's normalized form, and zero when there is none.
\<close>

definition sum_first_matching_column :: "frame \<Rightarrow> string list \<Rightarrow> error + real" where
  "sum_first_matching_column df targets =
     (case find (\<lambda>col. list_ex (\<lambda>t. norm_key col = norm_key t) targets) (columns df) of
        Some col \<Rightarrow> (case getitem df col of Inl e \<Rightarrow> Inl e | Inr s \<Rightarrow> series_sum s)
      | None \<Rightarrow> Inr 0)"

text \<open>A table with some of its headers respelt.\<close>

definition relabel :: "(string \<Rightarrow> string) \<Rightarrow> frame \<Rightarrow> frame" where
  "relabel f df = map (\<lambda>(label, s). (f label, s)) df"

section \<open>The invoice calculator\<close>

text \<open>
  The format \<^verbatim>\<open>f"{x:,.2f}"\<close>: two decimals, ties to even, the integer part grouped by
  thousands, and a minus sign for a negative number.
\<close>

definition round_half_even :: "real \<Rightarrow> int" where
  "round_half_even y =
     (let f = \<lfloor>y\<rfloor>
      in if y - of_int f < 1 / 2 then f
         else if 1 / 2 < y - of_int f then f + 1
         else if even f then f else f + 1)"

definition cents :: "real \<Rightarrow> nat" where
  "cents x = nat (round_half_even (\<bar>x\<bar> * 100))"

definition digit_char :: "nat \<Rightarrow> char" where
  "digit_char d = char_of (48 + d)"

fun digits :: "nat \<Rightarrow> string" where
  "digits k = (if k < 10 then [digit_char k] else digits (k div 10) @ [digit_char (k mod 10)])"

fun commas_rev :: "string \<Rightarrow> string" where
  "commas_rev (a # b # c # d # rest) = a # b # c # CHR '','' # commas_rev (d # rest)"
| "commas_rev s = s"

definition fmt2 :: "real \<Rightarrow> string" where
  "fmt2 x =
     (if x < 0 then ''-'' else [])
     @ rev (commas_rev (rev (digits (cents x div 100))))
     @ ''.''
     @ [digit_char (cents x mod 100 div 10), digit_char (cents x mod 10)]"

text \<open>\<^verbatim>\<open>x.replace(",", "")\<close>\<close>

definition replace_commas :: "string \<Rightarrow> string" where
  "replace_commas s = filter (\<lambda>c. c \<noteq> CHR '','') s"

text \<open>
  \<^verbatim>\<open>float(s)\<close> on plain decimal numerals, which is what the amounts of the invoice are.
  Python reads more (exponents, \<^verbatim>\<open>inf\<close>, \<^verbatim>\<open>nan\<close>, blanks around the numeral); here anything
  else is the \<^verbatim>\<open>ValueError\<close> case \<open>None\<close>.
\<close>

definition float_of :: "string \<Rightarrow> real option" where
  "float_of s =
     (let negative = (case s of [] \<Rightarrow> False | c # r \<Rightarrow> c = CHR ''-'');
          body = (if negative then tl s else s);
          whole = takeWhile is_digit body;
          rest = dropWhile is_digit body;
          sign = (if negative then - 1 else 1)
      in if whole = [] then None
         else (case rest of
                 [] \<Rightarrow> Some (sign * real (nat_of_digits whole))
               | c # decimals \<Rightarrow>
                   if c = CHR ''.'' \<and> decimals \<noteq> [] \<and> list_all is_digit decimals
                   then Some (sign * (real (nat_of_digits whole)
                                      + real (nat_of_digits decimals) / 10 ^ length decimals))
                   else None))"

record line_item =
  item_no :: nat
  description :: string
  qty :: nat
  u_price :: string
  amount :: string

text \<open>
  The values the invoice section computes (lines 156 to 205); \<open>headcount\<close> is the local
  \<^verbatim>\<open>n\<close>.
\<close>

record invoice =
  headcount :: nat
  gross_sum :: real
  overtime_total :: real
  epf_er :: real
  eis_er :: real
  socso_er :: real
  emp_stat :: real
  hrdf_amt :: real
  wages :: real
  mgmt_fee :: real
  items :: "line_item list"
  total_excl_sst :: real
  sst_amount :: real
  total_incl_sst :: real

definition and_then :: "error + 'a \<Rightarrow> ('a \<Rightarrow> error + 'b) \<Rightarrow> error + 'b" where
  "and_then r f = (case r of Inl e \<Rightarrow> Inl e | Inr x \<Rightarrow> f x)"

definition epf_er_names :: "string list" where
  "epf_er_names = [''EPF ER'', ''EPF'ER'', ''EPFER'']"

definition eis_er_names :: "string list" where
  "eis_er_names = [''EIS ER'', ''EIS'ER'', ''EISER'']"

definition socso_er_names :: "string list" where
  "socso_er_names = [''Socso ER'', ''SOC ER'', ''SOC'ER'', ''SOCSOER'', ''Soc 'EE'']"

text \<open>
  \<^verbatim>\<open>df.get("HRDF", 0).sum()\<close>: when the column is absent the receiver of \<^verbatim>\<open>.sum()\<close> is the
  integer \<^verbatim>\<open>0\<close>, which has no such method.
\<close>

definition hrdf_sum :: "frame \<Rightarrow> error + real" where
  "hrdf_sum df = (case df_get df ''HRDF'' of Scalar a \<Rightarrow> Inl AttributeError | Column s \<Rightarrow> series_sum s)"

definition insurance_fee :: nat where
  "insurance_fee = 50"

definition sst_rate :: real where
  "sst_rate = 0.08"

definition invoice_items :: "nat \<Rightarrow> real \<Rightarrow> real \<Rightarrow> real \<Rightarrow> real \<Rightarrow> real \<Rightarrow> line_item list" where
  "invoice_items k wages_v overtime_v emp_stat_v hrdf_v mgmt_fee_v =
     [\<lparr>item_no = 1, description = ''Wages'', qty = 1,
        u_price = fmt2 wages_v, amount = fmt2 wages_v\<rparr>,
      \<lparr>item_no = 2, description = ''Overtime'', qty = 1,
        u_price = fmt2 overtime_v, amount = fmt2 overtime_v\<rparr>,
      \<lparr>item_no = 3, description = ''Employer Statutory (EPF+Socso+EIS)'', qty = 1,
        u_price = fmt2 emp_stat_v, amount = fmt2 emp_stat_v\<rparr>,
      \<lparr>item_no = 4, description = ''HRDF'', qty = 1,
        u_price = fmt2 hrdf_v, amount = fmt2 hrdf_v\<rparr>,
      \<lparr>item_no = 5, description = ''Medical Fee (Excl. Mgmt Fee)'', qty = 1,
        u_price = [], amount = []\<rparr>,
      \<lparr>item_no = 6, description = ''Insurance Claim (Excl. Mgmt Fee)'', qty = k,
        u_price = fmt2 (real insurance_fee), amount = fmt2 (real (insurance_fee * k))\<rparr>,
      \<lparr>item_no = 7, description = ''15% Management Fee'', qty = 1,
        u_price = fmt2 mgmt_fee_v, amount = fmt2 mgmt_fee_v\<rparr>]"

text \<open>\<^verbatim>\<open>sum(float(x.replace(",", "")) for x in inv_df["Amount"] if x)\<close>\<close>

fun sum_from :: "real \<Rightarrow> string list \<Rightarrow> error + real" where
  "sum_from acc [] = Inr acc"
| "sum_from acc (x # rest) =
     (if x = [] then sum_from acc rest
      else (case float_of (replace_commas x) of
              None \<Rightarrow> Inl (ValueError x)
            | Some v \<Rightarrow> sum_from (acc + v) rest))"

definition sum_amounts :: "string list \<Rightarrow> error + real" where
  "sum_amounts xs = sum_from 0 xs"

text \<open>
  Lines 203 to 205: \<^verbatim>\<open>sst_amount = total_excl_sst * sst_rate\<close> and
  \<^verbatim>\<open>total_incl_sst = total_excl_sst + sst_amount\<close>. The multiplication and the addition
  are parameters here, so that the step can be stated for arithmetic that rounds; the invoice
  below takes them exact, as all amounts of this development are.
\<close>

definition sst_totals ::
  "(real \<Rightarrow> real \<Rightarrow> real) \<Rightarrow> (real \<Rightarrow> real \<Rightarrow> real) \<Rightarrow> real \<Rightarrow> real \<Rightarrow> real \<times> real" where
  "sst_totals mul_op add_op rate total_excl =
     (let sst = mul_op total_excl rate in (sst, add_op total_excl sst))"

text \<open>
  Lines 156 to 205. An exception anywhere in the section is caught by the handler of line
  280, which reports it; no invoice is produced then.
\<close>

definition generate_invoice :: "frame \<Rightarrow> error + invoice" where
  "generate_invoice df =
     and_then (getitem df ''Gross Pay'') (\<lambda>gross_pay.
     and_then (series_sum gross_pay) (\<lambda>gross_sum_v.
     and_then (getitem df ot_amt) (\<lambda>ot.
     and_then (series_sum ot) (\<lambda>ot_sum.
     and_then (getitem df ''BOT'') (\<lambda>bot.
     and_then (series_sum bot) (\<lambda>bot_sum.
     and_then (sum_norm df epf_er_names) (\<lambda>epf_er_v.
     and_then (sum_norm df eis_er_names) (\<lambda>eis_er_v.
     and_then (sum_norm df socso_er_names) (\<lambda>socso_er_v.
     and_then (hrdf_sum df) (\<lambda>hrdf_v.
       let k = len df;
           overtime_v = ot_sum + bot_sum;
           emp_stat_v = epf_er_v + socso_er_v + eis_er_v;
           wages_v = gross_sum_v - overtime_v;
           mgmt_base = wages_v + overtime_v + emp_stat_v + hrdf_v;
           mgmt_fee_v = 0.15 * mgmt_base;
           items_v = invoice_items k wages_v overtime_v emp_stat_v hrdf_v mgmt_fee_v
       in and_then (sum_amounts (map amount items_v)) (\<lambda>total_excl.
            let (sst, total_incl) = sst_totals (\<lambda>x y. x * y) (\<lambda>x y. x + y) sst_rate total_excl
            in Inr \<lparr>headcount = k, gross_sum = gross_sum_v, overtime_total = overtime_v,
                    epf_er = epf_er_v, eis_er = eis_er_v, socso_er = socso_er_v,
                    emp_stat = emp_stat_v, hrdf_amt = hrdf_v, wages = wages_v,
                    mgmt_fee = mgmt_fee_v, items = items_v, total_excl_sst = total_excl,
                    sst_amount = sst, total_incl_sst = total_incl\<rparr>)))))))))))"

section \<open>From the uploaded sheet to the payroll summary\<close>

text \<open>
  Lines 71 to 77: the back-tick is deleted from every header and the blanks around it are
  stripped. The two typographic quotes the script deletes as well lie above code point 255
  and do not occur in a header of this development.
\<close>

definition is_space :: "char \<Rightarrow> bool" where
  "is_space c =
     (let n = (of_char c :: nat)
      in (9 \<le> n \<and> n \<le> 13) \<or> (28 \<le> n \<and> n \<le> 32) \<or> n = 133 \<or> n = 160)"

definition strip :: "string \<Rightarrow> string" where
  "strip s = rev (dropWhile is_space (rev (dropWhile is_space s)))"

definition clean_label :: "string \<Rightarrow> string" where
  "clean_label s = strip (filter (\<lambda>c. c \<noteq> CHR 0x60) s)"

text \<open>\<^verbatim>\<open>rename(columns={"EPFEE": "EPF", "SocEE": "Socso", "EISEE": "EIS"})\<close>\<close>

definition rename_label :: "string \<Rightarrow> string" where
  "rename_label label =
     (if label = ''EPFEE'' then ''EPF''
      else if label = ''SocEE'' then ''Socso''
      else if label = ''EISEE'' then ''EIS''
      else label)"

text \<open>\<^verbatim>\<open>Index.duplicated()\<close>: true at every occurrence of a label but its first.\<close>

fun duplicated_from :: "string list \<Rightarrow> string list \<Rightarrow> bool list" where
  "duplicated_from seen [] = []"
| "duplicated_from seen (label # rest) = (label \<in> set seen) # duplicated_from (label # seen) rest"

definition duplicated :: "string list \<Rightarrow> bool list" where
  "duplicated labels = duplicated_from [] labels"

text \<open>
  Lines 71 to 83. In the chain of line 78, \<^verbatim>\<open>df_raw.columns.duplicated()\<close> is evaluated on
  \<^verbatim>\<open>df_raw\<close> as it is before the renaming: the mask is that of the cleaned labels, and it
  selects among the renamed columns.
\<close>

definition load_columns :: "frame \<Rightarrow> frame" where
  "load_columns sheet =
     (let df_raw = map (\<lambda>(label, s). (clean_label label, s)) sheet;
          renamed = map (\<lambda>(label, s). (rename_label label, s)) df_raw
      in select (map Not (duplicated (columns df_raw))) renamed)"

text \<open>
  Lines 116 and 117 as the script runs them. The assignment \<^verbatim>\<open>df[num_cols] = ...\<close> raises
  \<^verbatim>\<open>ValueError\<close> when a label occurs twice in \<^verbatim>\<open>num_cols\<close>, since the key then selects
  more columns than it has labels; on distinct labels it is \<open>numeric_conversion\<close>.
\<close>

definition num_cols :: "string \<Rightarrow> frame \<Rightarrow> string list" where
  "num_cols cost_col df = filter (\<lambda>label. label \<notin> set (ignore cost_col)) (columns df)"

definition convert_numeric :: "(cell \<Rightarrow> real option) \<Rightarrow> string \<Rightarrow> frame \<Rightarrow> error + frame" where
  "convert_numeric parse_num cost_col df =
     (if distinct (num_cols cost_col df) then Inr (numeric_conversion parse_num cost_col df)
      else Inl (ValueError ''repeated column label''))"

text \<open>Lines 71 to 135, for the selected department.\<close>

definition payroll_table ::
  "date_parser \<Rightarrow> (cell \<Rightarrow> real option) \<Rightarrow> cell \<Rightarrow> frame \<Rightarrow> error + frame" where
  "payroll_table parse_date parse_num sel_dept sheet =
     (let df_raw = load_columns sheet
      in and_then (find_cost_col (columns df_raw)) (\<lambda>cost_col.
         and_then (select_department cost_col sel_dept df_raw) (\<lambda>df.
         and_then (drop_resigned parse_date df) (\<lambda>df.
         and_then (convert_numeric parse_num cost_col df) payroll_summary))))"

section \<open>Notions to state the properties with\<close>

text \<open>
  The number the aggregator works with in row \<open>i\<close> of a column of the filtered table: the
  cell after the numeric coercion, a blank or unreadable cell counting as zero, and zero
  when the table has no column of that label.
\<close>

definition amount_at :: "(cell \<Rightarrow> real option) \<Rightarrow> frame \<Rightarrow> string \<Rightarrow> nat \<Rightarrow> real" where
  "amount_at parse_num df label i =
     (case map_of df label of
        None \<Rightarrow> 0
      | Some s \<Rightarrow> (case coerce_num parse_num (s ! i) of Num x \<Rightarrow> x | _ \<Rightarrow> 0))"

text \<open>The number in row \<open>i\<close> of a numeric column, zero when the table has no such column.\<close>

definition value_at :: "frame \<Rightarrow> string \<Rightarrow> nat \<Rightarrow> real" where
  "value_at df label i = (case map_of df label of None \<Rightarrow> 0 | Some s \<Rightarrow> the_num (s ! i))"

text \<open>A column of \<open>n\<close> numbers, and the column whose row \<open>i\<close> holds the number \<open>f i\<close>.\<close>

definition numeric :: "nat \<Rightarrow> series \<Rightarrow> bool" where
  "numeric n s = (length s = n \<and> list_all is_Num s)"

definition column_of :: "nat \<Rightarrow> (nat \<Rightarrow> real) \<Rightarrow> series" where
  "column_of n f = map (\<lambda>i. Num (f i)) [0..<n]"

fun good :: "nat \<Rightarrow> operand \<Rightarrow> bool" where
  "good n (Scalar a) = True"
| "good n (Column s) = numeric n s"

fun op_at :: "operand \<Rightarrow> nat \<Rightarrow> real" where
  "op_at (Scalar a) i = a"
| "op_at (Column s) i = the_num (s ! i)"

text \<open>The number an amount is printed as: rounded to the cent, ties to even.\<close>

definition round2 :: "real \<Rightarrow> real" where
  "round2 x = (if x < 0 then - 1 else 1) * (real (cents x) / 100)"

text \<open>
  A line whose unit price and amount are blank, the number a line's amount reads as (zero
  for a blank), and a line whose amount is its quantity times its unit price.
\<close>

definition placeholder :: "line_item \<Rightarrow> bool" where
  "placeholder it = (u_price it = [] \<and> amount it = [])"

definition amount_value :: "line_item \<Rightarrow> real" where
  "amount_value it = (case float_of (replace_commas (amount it)) of Some a \<Rightarrow> a | None \<Rightarrow> 0)"

definition line_consistent :: "line_item \<Rightarrow> bool" where
  "line_consistent it =
     (case (float_of (replace_commas (amount it)), float_of (replace_commas (u_price it))) of
        (Some a, Some p) \<Rightarrow> a = real (qty it) * p
      | _ \<Rightarrow> False)"

section \<open>Sheets to evaluate the pipeline on\<close>

definition respell :: "string \<Rightarrow> string" where
  "respell l = (if l = ''EPF'ER'' then ''epf er'' else if l = ''Name'' then ''NAME:'' else l)"

definition matcher_sheet :: frame where
  "matcher_sheet =
     [(''Name'', [Str ''Ann'', Str ''Ben'']), (''EPF'ER'', [Num 390, Num 260]),
      (''EIS ER'', [Num 6, Num 4])]"

definition two_socso_sheet :: frame where
  "two_socso_sheet = [(''SOC ER'', [Num 1]), (''Socso ER'', [Num 2])]"

text \<open>A number parser to evaluate the aggregator with: it reads a text of digits.\<close>

definition whole_number :: "cell \<Rightarrow> real option" where
  "whole_number c =
     (case c of
        Str s \<Rightarrow> if s \<noteq> [] \<and> list_all is_digit s then Some (real (nat_of_digits s)) else None
      | _ \<Rightarrow> None)"

definition payroll_sheet :: frame where
  "payroll_sheet =
     [(''Name'', [Str ''Ann'', Str ''Cy'']),
      (''C/Center'', [Str ''HQ'', Str ''HQ'']),
      (''Joined'', [Date (2020, 3, 1), Date (2021, 1, 4)]),
      (''Resign'', [Empty, Empty]),
      (''M/Basic'', [Num 3000, Str ''1500'']),
      (ot_amt, [Num 200, Str ''n/a'']),
      (''EPF'', [Num 300, Num 165]),
      (''Socso'', [Num 50, Empty]),
      (''EIS'', [Num 10, Num 3]),
      (''PCB'', [Num 0, Num 0])]"

definition bare_sheet :: frame where
  "bare_sheet =
     [(''Name'', [Str ''Ann'', Str ''Cy'']),
      (''Dept'', [Str ''HQ'', Str ''HQ'']),
      (''Joined'', [Date (2020, 3, 1), Date (2021, 1, 4)])]"

text \<open>
  An aggregated department table of five employees, the one of \<open>payroll_sheet\<close>, which has
  neither \<^verbatim>\<open>BOT\<close> nor \<^verbatim>\<open>HRDF\<close>, and the first without its \<^verbatim>\<open>HRDF\<close> column.
\<close>

definition invoice_sheet :: frame where
  "invoice_sheet =
     [(''Name'', [Str ''Ann'', Str ''Ben'', Str ''Cy'', Str ''Dee'', Str ''Eli'']),
      (ot_amt, [Num 100, Num 100, Num 100, Num 0, Num 0]),
      (''BOT'', [Num 0, Num 0, Num 0, Num 100, Num 100]),
      (''EPF'ER'', [Num 160, Num 160, Num 160, Num 160, Num 160]),
      (''SOCSO ER'', [Num 60, Num 60, Num 60, Num 60, Num 60]),
      (''EIS ER'', [Num 20, Num 20, Num 20, Num 20, Num 20]),
      (''HRDF'', [Num 20, Num 20, Num 20, Num 20, Num 20]),
      (''Gross Pay'', [Num 2100, Num 2100, Num 2100, Num 2100, Num 2100])]"

definition aggregated_sheet :: frame where
  "aggregated_sheet =
     [(''Name'', [Str ''Ann'', Str ''Cy'']),
      (''C/Center'', [Str ''HQ'', Str ''HQ'']),
      (''Joined'', [Date (2020, 3, 1), Date (2021, 1, 4)]),
      (''Resign'', [Empty, Empty]),
      (''M/Basic'', [Num 3000, Num 1500]),
      (ot_amt, [Num 200, Num 0]),
      (''EPF'', [Num 300, Num 165]),
      (''Socso'', [Num 50, Num 0]),
      (''EIS'', [Num 10, Num 3]),
      (''PCB'', [Num 0, Num 0]),
      (''Gross Pay'', [Num 3200, Num 1500]),
      (''Total Deduction'', [Num 360, Num 168]),
      (''Net Pay'', [Num 2840, Num 1332])]"

definition no_hrdf_sheet :: frame where
  "no_hrdf_sheet = filter (\<lambda>(label, s). label \<noteq> ''HRDF'') invoice_sheet"

text \<open>The invoice of \<open>invoice_sheet\<close>.\<close>

definition sheet_invoice :: invoice where
  "sheet_invoice =
     \<lparr>headcount = 5, gross_sum = 10500, overtime_total = 500, epf_er = 800, eis_er = 100,
      socso_er = 300, emp_stat = 1200, hrdf_amt = 100, wages = 10000, mgmt_fee = 1770,
      items = invoice_items 5 10000 500 1200 100 1770, total_excl_sst = 13820,
      sst_amount = 1105.6, total_incl_sst = 14925.6\<rparr>"

text \<open>A sheet as uploaded, with an \<^verbatim>\<open>EPF`EE\<close> and an \<^verbatim>\<open>EPF\<close> column.\<close>

definition two_epf_sheet :: frame where
  "two_epf_sheet =
     [(''Name'', [Str ''Ann'', Str ''Cy'']),
      (''C/Center'', [Str ''HQ'', Str ''HQ'']),
      (''Joined'', [Date (2020, 3, 1), Date (2021, 1, 4)]),
      (''Resign'', [Empty, Empty]),
      (''M/Basic'', [Num 3000, Num 1500]),
      (''EPF`EE'', [Num 300, Num 165]),
      (''EPF'', [Num 390, Num 195])]"

definition resign_sheet :: frame where
  "resign_sheet =
     [(''Name'', [Str ''Ann'', Str ''Ben'', Str ''Cy'']),
      (''Joined'', [Str ''2020-03-01'', Str ''2019-07-15'', Str ''2021-01-04'']),
      (''Resign'', [Empty, Str ''2024-01-01'', Str ''TBD''])]"

section \<open>Properties of the normal form\<close>

lemma of_char_lower_char:
  "(of_char (lower_char c) :: nat) = (if is_upper c then of_char c + 32 else of_char c)"
  by (auto simp: lower_char_def is_upper_def Let_def)

lemma is_az_lower_char: "is_az (lower_char c) = is_ascii_letter c"
  unfolding is_az_def is_ascii_letter_def Let_def of_char_lower_char
  by (auto simp: is_upper_def Let_def)

lemma norm_key_letters_lowercased: "norm_key s = letters_lowercased s"
  by (induction s) (simp_all add: norm_key_def letters_lowercased_def lower_def is_az_lower_char)

lemma norm_key_Nil_iff: "norm_key s = [] \<longleftrightarrow> (\<forall>c \<in> set s. \<not> is_ascii_letter c)"
  by (induction s) (simp_all add: norm_key_def lower_def is_az_lower_char)

section \<open>Properties of the cost-center resolver\<close>

lemma update_absent: "k \<notin> fst ` set al \<Longrightarrow> AList.update k v al = al @ [(k, v)]"
  by (induction al) auto

lemma norm_map_snoc: "norm_map (cs @ [c]) = AList.update c (norm_key c) (norm_map cs)"
  by (simp add: norm_map_def)

lemma map_of_norm_map:
  "map_of (norm_map cs) = (\<lambda>c. if c \<in> set cs then Some (norm_key c) else None)"
proof (induction cs rule: rev_induct)
  case Nil
  show ?case by (simp add: norm_map_def)
next
  case (snoc c cs)
  show ?case
    unfolding norm_map_snoc AList.update_conv' snoc.IH by auto
qed

lemma keys_norm_map: "fst ` set (norm_map cs) = set cs"
proof -
  have "fst ` set (norm_map cs) = dom (map_of (norm_map cs))"
    by (simp add: dom_map_of_conv_image_fst)
  also have "\<dots> = set cs"
    unfolding map_of_norm_map by (auto simp: dom_def)
  finally show ?thesis .
qed

lemma find_append_cases:
  "find P (xs @ ys) = (case find P xs of None \<Rightarrow> find P ys | Some x \<Rightarrow> Some x)"
  by (induction xs) auto

lemma find_snoc_member:
  assumes "c \<in> set cs"
  shows "find P (cs @ [c]) = find P cs"
proof (cases "find P cs")
  case None
  with assms have "\<not> P c"
    by (auto simp: find_None_iff)
  with None show ?thesis
    by (simp add: find_append_cases)
next
  case (Some x)
  then show ?thesis
    by (simp add: find_append_cases)
qed

text \<open>
  Searching the dict's items is searching the headers themselves: a repeated header sits in
  the dict at its first position.
\<close>

lemma find_norm_map:
  "find (\<lambda>(orig, key). key = t) (norm_map cs)
     = map_option (\<lambda>c. (c, norm_key c)) (find (\<lambda>c. norm_key c = t) cs)"
proof (induction cs rule: rev_induct)
  case Nil
  show ?case by (simp add: norm_map_def)
next
  case (snoc c cs)
  show ?case
  proof (cases "c \<in> set cs")
    case True
    then have "map_of (norm_map cs) c = Some (norm_key c)"
      by (simp add: map_of_norm_map)
    then have "norm_map (cs @ [c]) = norm_map cs"
      unfolding norm_map_snoc by (rule AList.update_triv)
    with True snoc.IH show ?thesis
      by (simp add: find_snoc_member)
  next
    case False
    then have "norm_map (cs @ [c]) = norm_map cs @ [(c, norm_key c)]"
      unfolding norm_map_snoc by (simp add: update_absent keys_norm_map)
    with snoc.IH show ?thesis
      by (auto simp: find_append_cases split: option.splits)
  qed
qed

lemma match_loop_first_header:
  "match_loop ts (norm_map cs) = first_header_by_priority ts cs"
proof (induction ts)
  case Nil
  show ?case by (simp add: first_header_by_priority_def)
next
  case (Cons t ts)
  show ?case
  proof (cases "find (\<lambda>c. norm_key c = norm_key t) cs")
    case None
    then have "\<not> list_ex (\<lambda>c. norm_key c = norm_key t) cs"
      by (auto simp: find_None_iff list_ex_iff)
    with None Cons.IH show ?thesis
      by (simp add: find_norm_map first_header_by_priority_def)
  next
    case (Some c)
    then have "list_ex (\<lambda>c. norm_key c = norm_key t) cs"
      by (auto simp: find_Some_iff list_ex_iff)
    with Some show ?thesis
      by (simp add: find_norm_map first_header_by_priority_def)
  qed
qed

lemma acceptable_keys:
  "map norm_key acceptable = [''ccenter'', ''costcenter'', ''center'', ''ccenter'', ''ccenter'']"
  by code_simp

lemma first_header_cases:
  "first_header_by_priority ts cs = Some c \<Longrightarrow> c \<in> set cs \<and> norm_key c \<in> norm_key ` set ts"
  by (auto simp: first_header_by_priority_def find_Some_iff split: option.splits)

lemma first_header_None_iff:
  "first_header_by_priority ts cs = None \<longleftrightarrow> (\<forall>c \<in> set cs. norm_key c \<notin> norm_key ` set ts)"
proof (cases "find (\<lambda>t. list_ex (\<lambda>c. norm_key c = norm_key t) cs) ts")
  case None
  then have "\<forall>t \<in> set ts. \<forall>c \<in> set cs. norm_key c \<noteq> norm_key t"
    by (auto simp: find_None_iff list_ex_iff)
  with None show ?thesis
    by (auto simp: first_header_by_priority_def)
next
  case (Some t)
  then have t: "t \<in> set ts" "\<exists>c \<in> set cs. norm_key c = norm_key t"
    by (auto simp: find_Some_iff list_ex_iff)
  then have "find (\<lambda>c. norm_key c = norm_key t) cs \<noteq> None"
    by (auto simp: find_None_iff)
  with Some t show ?thesis
    by (auto simp: first_header_by_priority_def)
qed

lemma cost_col_key:
  assumes "match_cost_center_column cols = Some c"
  shows "c \<in> set cols \<and> norm_key c \<in> {''ccenter'', ''costcenter'', ''center''}"
proof -
  from assms have "first_header_by_priority acceptable cols = Some c"
    by (simp add: match_cost_center_column_def match_loop_first_header)
  then have "c \<in> set cols" and "norm_key c \<in> set (map norm_key acceptable)"
    using first_header_cases by fastforce+
  then show ?thesis
    unfolding acceptable_keys by auto
qed

text \<open>
  C7. The resolver goes through the acceptable spellings in their order of priority and
  returns, for the first spelling that some header matches under the letters-only lowercase
  normal form, the first header that matches it. It finds nothing exactly when no header
  matches any spelling, and then, and only then, the session stops with the error message:
  there is no fallback.
\<close>

theorem cost_center_resolver:
  "match_cost_center_column cols = first_header_by_priority acceptable cols
   \<and> (first_header_by_priority acceptable cols = None
        \<longleftrightarrow> (\<forall>c \<in> set cols. norm_key c \<notin> norm_key ` set acceptable))
   \<and> find_cost_col cols =
       (case first_header_by_priority acceptable cols of
          None \<Rightarrow> Inl CostCenterNotFound
        | Some c \<Rightarrow> Inr c)"
proof -
  have eq: "match_cost_center_column cols = first_header_by_priority acceptable cols"
    by (simp add: match_cost_center_column_def match_loop_first_header)
  have "c \<noteq> []" if "match_cost_center_column cols = Some c" for c
    using cost_col_key[OF that] by (auto simp: norm_key_def lower_def)
  then have "find_cost_col cols =
       (case first_header_by_priority acceptable cols of
          None \<Rightarrow> Inl CostCenterNotFound
        | Some c \<Rightarrow> Inr c)"
    unfolding find_cost_col_def eq by (auto split: option.splits)
  with eq first_header_None_iff show ?thesis
    by blast
qed

lemma resolver_example_found:
  "first_header_by_priority acceptable [''No.'', ''Name'', ''Cost Center'', ''c center'']
     = Some ''c center''"
  by code_simp

lemma resolver_example_missing:
  "first_header_by_priority acceptable [''No.'', ''Name'', ''Dept''] = None"
  by code_simp

theorem cost_center_resolver_witness:
  "match_cost_center_column [''No.'', ''Name'', ''Cost Center'', ''c center''] = Some ''c center''
   \<and> find_cost_col [''No.'', ''Name'', ''Cost Center'', ''c center''] = Inr ''c center''
   \<and> find_cost_col [''No.'', ''Name'', ''Dept''] = Inl CostCenterNotFound"
  using cost_center_resolver[of "[''No.'', ''Name'', ''Cost Center'', ''c center'']"]
    cost_center_resolver[of "[''No.'', ''Name'', ''Dept'']"]
  by (simp add: resolver_example_found resolver_example_missing)

section \<open>Properties of the column matcher\<close>

lemma sum_norm_first_header:
  "sum_norm df ts =
     (case first_header_by_priority ts (columns df) of
        None \<Rightarrow> Inr 0
      | Some col \<Rightarrow> and_then (getitem df col) series_sum)"
proof (induction ts)
  case Nil
  show ?case by (simp add: first_header_by_priority_def)
next
  case (Cons t ts)
  show ?case
  proof (cases "find (\<lambda>c. norm_key c = norm_key t) (columns df)")
    case None
    then have "\<not> list_ex (\<lambda>c. norm_key c = norm_key t) (columns df)"
      by (auto simp: find_None_iff list_ex_iff)
    with None Cons.IH show ?thesis
      by (simp add: first_header_by_priority_def)
  next
    case (Some c)
    then have "list_ex (\<lambda>c. norm_key c = norm_key t) (columns df)"
      by (auto simp: find_Some_iff list_ex_iff)
    with Some show ?thesis
      by (simp add: first_header_by_priority_def and_then_def)
  qed
qed

lemma getitem_present: "col \<in> set (columns df) \<Longrightarrow> \<exists>s. getitem df col = Inr s \<and> (col, s) \<in> set df"
  by (induction df) (auto simp: getitem_def columns_def)

lemma columns_relabel: "columns (relabel f df) = map f (columns df)"
  by (simp add: relabel_def columns_def case_prod_unfold)

lemma find_map_key:
  assumes "\<forall>c \<in> set cs. norm_key (f c) = norm_key c"
  shows "find (\<lambda>c. norm_key c = k) (map f cs) = map_option f (find (\<lambda>c. norm_key c = k) cs)"
  using assms by (induction cs) auto

lemma list_ex_map_key:
  assumes "\<forall>c \<in> set cs. norm_key (f c) = norm_key c"
  shows "list_ex (\<lambda>c. norm_key c = k) (map f cs) = list_ex (\<lambda>c. norm_key c = k) cs"
  using assms by (induction cs) auto

lemma first_header_map_key:
  assumes "\<forall>c \<in> set cs. norm_key (f c) = norm_key c"
  shows "first_header_by_priority ts (map f cs) = map_option f (first_header_by_priority ts cs)"
  unfolding first_header_by_priority_def
  by (simp add: find_map_key[OF assms] list_ex_map_key[OF assms] split: option.splits)

lemma getitem_relabel:
  assumes "distinct (map f (columns df))" and "col \<in> set (columns df)"
  shows "getitem (relabel f df) (f col) = getitem df col"
  using assms
proof (induction df)
  case Nil
  then show ?case by (simp add: columns_def)
next
  case (Cons p df)
  obtain l s where p: "p = (l, s)" by (cases p)
  show ?case
  proof (cases "col = l")
    case True
    then show ?thesis
      by (simp add: p getitem_def relabel_def)
  next
    case False
    with Cons.prems p have mem: "col \<in> set (columns df)" and "f l \<notin> f ` set (columns df)"
      by (auto simp: columns_def)
    then have "f col \<noteq> f l"
      by (metis imageI)
    moreover have "getitem (relabel f df) (f col) = getitem df col"
      using Cons.IH Cons.prems mem by (simp add: columns_def)
    ultimately show ?thesis
      using False by (simp add: p getitem_def relabel_def)
  qed
qed

lemma sum_norm_relabel:
  assumes keys: "\<forall>l \<in> set (columns df). norm_key (f l) = norm_key l"
    and dist: "distinct (map f (columns df))"
  shows "sum_norm (relabel f df) ts = sum_norm df ts"
proof (cases "first_header_by_priority ts (columns df)")
  case None
  then show ?thesis
    by (simp add: sum_norm_first_header columns_relabel first_header_map_key[OF keys])
next
  case (Some col)
  then have "col \<in> set (columns df)"
    using first_header_cases by blast
  then have "getitem (relabel f df) (f col) = getitem df col"
    using dist by (rule getitem_relabel[rotated])
  with Some show ?thesis
    by (simp add: sum_norm_first_header columns_relabel first_header_map_key[OF keys])
qed

text \<open>
  C2, as the code has it. Header and target are compared by their normal form, which is the
  text without every character that is not an ASCII letter, in lowercase. The matcher goes
  through the targets in the order given and, for the first target that some column
  matches, returns the sum of the first column that matches it: the order of the targets
  comes before the order of the columns. It returns zero exactly when no column matches any
  target. Hence respelling the headers of a table without touching their letters (case,
  punctuation, digits, blanks and apostrophes may change) leaves the result unchanged.
\<close>

theorem column_matcher:
  "norm_key h = letters_lowercased h
   \<and> sum_norm df targets =
       (case first_header_by_priority targets (columns df) of
          None \<Rightarrow> Inr 0
        | Some col \<Rightarrow> and_then (getitem df col) series_sum)
   \<and> (first_header_by_priority targets (columns df) = None
        \<longleftrightarrow> (\<forall>c \<in> set (columns df). norm_key c \<notin> norm_key ` set targets))
   \<and> ((\<forall>l \<in> set (columns df). letters_lowercased (f l) = letters_lowercased l)
        \<and> distinct (map f (columns df))
        \<longrightarrow> sum_norm (relabel f df) targets = sum_norm df targets)"
  using norm_key_letters_lowercased sum_norm_first_header first_header_None_iff
    sum_norm_relabel[of df f targets]
  by (simp only: norm_key_letters_lowercased[symmetric]) blast

lemma matcher_sheet_respelt:
  "(\<forall>l \<in> set (columns matcher_sheet). letters_lowercased (respell l) = letters_lowercased l)
   \<and> distinct (map respell (columns matcher_sheet))"
  by code_simp

lemma matcher_sheet_sum: "sum_norm matcher_sheet epf_er_names = Inr 650"
  by code_simp

theorem column_matcher_witness:
  "sum_norm (relabel respell matcher_sheet) epf_er_names = Inr 650
   \<and> columns (relabel respell matcher_sheet) = [''NAME:'', ''epf er'', ''EIS ER'']"
proof -
  have "columns (relabel respell matcher_sheet) = [''NAME:'', ''epf er'', ''EIS ER'']"
    by code_simp
  then show ?thesis
    using column_matcher[of "[]" matcher_sheet epf_er_names respell] matcher_sheet_respelt
    by (simp add: matcher_sheet_sum)
qed

text \<open>
  The claim as worded, the first column that matches some target, fails on a sheet that has
  both \<^verbatim>\<open>SOC ER\<close> and \<^verbatim>\<open>Socso ER\<close>, in this order: the code returns the second column,
  since its target comes first.
\<close>

theorem column_matcher_counterexample:
  "sum_norm two_socso_sheet socso_er_names = Inr 2
   \<and> sum_first_matching_column two_socso_sheet socso_er_names = Inr 1"
  by code_simp

section \<open>Properties of tables\<close>

lemma map_of_setitem: "map_of (setitem df label s) = (map_of df)(label \<mapsto> s)"
  by (simp add: setitem_def AList.update_conv')

lemma columns_setitem_present:
  "label \<in> set (columns df) \<Longrightarrow> columns (setitem df label s) = columns df"
  by (simp add: setitem_def columns_def AList.update_keys)

lemma set_setitem: "set (setitem df label s) \<subseteq> insert (label, s) (set df)"
  unfolding setitem_def by (induction df) auto

lemma len_setitem: "length s = len df \<Longrightarrow> len (setitem df label s) = len df"
  by (cases df) (auto simp: setitem_def len_def)

lemma distinct_setitem: "distinct (columns df) \<Longrightarrow> distinct (columns (setitem df label s))"
  by (simp add: setitem_def columns_def AList.distinct_update)

lemma wf_frame_setitem:
  assumes "wf_frame df" and "length s = len df"
  shows "wf_frame (setitem df label s)"
proof -
  have "\<forall>(l, c) \<in> set (setitem df label s). length c = len df"
    using assms set_setitem[of df label s] by (auto simp: wf_frame_def list_all_iff)
  with assms show ?thesis
    by (simp add: wf_frame_def list_all_iff len_setitem distinct_setitem)
qed

lemma getitem_Inr_iff: "getitem df label = Inr s \<longleftrightarrow> map_of df label = Some s"
  by (simp add: getitem_def split: option.splits)

lemma getitem_absent: "label \<notin> set (columns df) \<Longrightarrow> getitem df label = Inl (KeyError label)"
  using map_of_eq_None_iff[of df label] by (simp add: getitem_def columns_def)

lemma wf_frame_length: "wf_frame df \<Longrightarrow> map_of df label = Some s \<Longrightarrow> length s = len df"
  by (auto simp: wf_frame_def list_all_iff dest: map_of_SomeD)

lemma map_of_select_rows:
  "map_of (select_rows keep df) label = map_option (select keep) (map_of df label)"
  by (induction df) (auto simp: select_rows_def)

lemma columns_select_rows: "columns (select_rows keep df) = columns df"
  by (simp add: select_rows_def columns_def case_prod_unfold)

lemma select_Cons: "select (k # ks) (x # xs) = (if k then [x] else []) @ select ks xs"
  by (simp add: select_def)

text \<open>Selecting by a mask keeps the cells at the positions where the mask holds, in order.\<close>

lemma select_positions:
  "length keep = length s \<Longrightarrow> select keep s = map ((!) s) (filter ((!) keep) [0..<length s])"
proof (induction s arbitrary: keep)
  case Nil
  then show ?case by (simp add: select_def)
next
  case (Cons x xs)
  then obtain k ks where keep: "keep = k # ks" and len: "length ks = length xs"
    by (cases keep) auto
  have upt: "[0..<length (x # xs)] = 0 # map Suc [0..<length xs]"
    by (simp add: upt_conv_Cons map_Suc_upt del: upt_Suc)
  have "filter ((!) (k # ks)) (map Suc [0..<length xs]) = map Suc (filter ((!) ks) [0..<length xs])"
    by (simp add: filter_map comp_def)
  then have tail: "map ((!) (x # xs)) (filter ((!) (k # ks)) (map Suc [0..<length xs]))
      = select ks xs"
    using Cons.IH[OF len] by (simp add: comp_def)
  have "map ((!) (x # xs)) (filter ((!) (k # ks)) (0 # map Suc [0..<length xs]))
      = (if k then [x] else []) @ map ((!) (x # xs)) (filter ((!) (k # ks)) (map Suc [0..<length xs]))"
    by simp
  then show ?case
    unfolding keep upt select_Cons tail by simp
qed

section \<open>Properties of the row filter\<close>

lemma length_to_datetime: "length (to_datetime p s) = length s"
  by (simp add: to_datetime_def)

lemma parse_dates_result:
  assumes "getitem df ''Joined'' = Inr joined" and "getitem df ''Resign'' = Inr resign"
  shows "parse_dates p df =
     Inr (setitem (setitem df ''Joined'' (to_datetime p joined)) ''Resign'' (to_datetime p resign))"
  using assms by (simp add: parse_dates_def getitem_def map_of_setitem split: option.splits)

lemma drop_resigned_result:
  assumes "getitem df ''Joined'' = Inr joined" and "getitem df ''Resign'' = Inr resign"
  shows "drop_resigned p df =
     Inr (select_rows (isna (to_datetime p resign))
           (setitem (setitem df ''Joined'' (to_datetime p joined)) ''Resign'' (to_datetime p resign)))"
  by (simp add: drop_resigned_def parse_dates_result[OF assms] getitem_def map_of_setitem)

lemma isna_to_datetime_nth:
  "i < length s \<Longrightarrow> isna (to_datetime p s) ! i = (coerce_date (p s) (s ! i) = Empty)"
  by (simp add: isna_def to_datetime_def)

text \<open>
  C3, as the code has it. When the table has the two date columns, the filter keeps, in
  every column, exactly the rows whose \<^verbatim>\<open>Resign\<close> value is missing after the coercion to a
  date. A blank value is missing, so the row stays; a date is not, so the row goes; and a
  text in which no date is read is coerced to missing, so that row stays as well.
\<close>

theorem row_filter:
  assumes "wf_frame df"
    and "getitem df ''Joined'' = Inr joined"
    and "getitem df ''Resign'' = Inr resign"
  shows "\<exists>df2 out.
           parse_dates p df = Inr df2 \<and> drop_resigned p df = Inr out
           \<and> columns out = columns df
           \<and> (\<forall>label s. getitem df2 label = Inr s \<longrightarrow>
                 getitem out label =
                   Inr (map ((!) s)
                         (filter (\<lambda>i. coerce_date (p resign) (resign ! i) = Empty) [0..<len df])))
           \<and> coerce_date q Empty = Empty
           \<and> coerce_date q (Date d) \<noteq> Empty
           \<and> (coerce_date q (Str t) = Empty \<longleftrightarrow> q (Str t) = None)"
proof -
  define df2 where
    "df2 = setitem (setitem df ''Joined'' (to_datetime p joined)) ''Resign'' (to_datetime p resign)"
  define keep where "keep = isna (to_datetime p resign)"
  define out where "out = select_rows keep df2"
  have lens: "length joined = len df" "length resign = len df"
    using assms by (auto simp: getitem_Inr_iff dest: wf_frame_length)
  have present: "''Joined'' \<in> set (columns df)" "''Resign'' \<in> set (columns df)"
    using assms(2,3) by (auto simp: getitem_Inr_iff columns_def dest!: map_of_SomeD intro: rev_image_eqI)
  have wf1: "wf_frame (setitem df ''Joined'' (to_datetime p joined))"
    using assms(1) lens by (simp add: wf_frame_setitem length_to_datetime)
  have len1: "len (setitem df ''Joined'' (to_datetime p joined)) = len df"
    using lens by (simp add: len_setitem length_to_datetime)
  have wf2: "wf_frame df2" and len2: "len df2 = len df"
    unfolding df2_def using wf1 len1 lens
    by (simp_all add: wf_frame_setitem len_setitem length_to_datetime)
  have cols: "columns out = columns df"
    unfolding out_def df2_def using present
    by (simp add: columns_select_rows columns_setitem_present)
  have keep_len: "length keep = len df"
    by (simp add: keep_def isna_def length_to_datetime lens)
  have keep_eq: "filter ((!) keep) [0..<len df]
      = filter (\<lambda>i. coerce_date (p resign) (resign ! i) = Empty) [0..<len df]"
    by (rule filter_cong) (simp_all add: keep_def isna_to_datetime_nth lens)
  have rows: "getitem out label =
        Inr (map ((!) s) (filter (\<lambda>i. coerce_date (p resign) (resign ! i) = Empty) [0..<len df]))"
    if "getitem df2 label = Inr s" for label s
  proof -
    from that have m: "map_of df2 label = Some s"
      by (simp add: getitem_Inr_iff)
    then have "length s = len df"
      using wf_frame_length[OF wf2] len2 by simp
    then have "select keep s = map ((!) s) (filter ((!) keep) [0..<len df])"
      using select_positions[of keep s] keep_len by simp
    with m show ?thesis
      by (simp add: out_def getitem_Inr_iff map_of_select_rows keep_eq)
  qed
  have res: "parse_dates p df = Inr df2" "drop_resigned p df = Inr out"
    unfolding df2_def out_def keep_def
    using parse_dates_result[OF assms(2,3)] drop_resigned_result[OF assms(2,3)] by simp_all
  have cells: "coerce_date q Empty = Empty" "coerce_date q (Date d) \<noteq> Empty"
    "coerce_date q (Str t) = Empty \<longleftrightarrow> q (Str t) = None"
    by (auto simp: coerce_date_def split: option.splits)
  show ?thesis
  proof (rule exI[of _ df2], rule exI[of _ out], intro conjI allI impI)
    show "parse_dates p df = Inr df2" and "drop_resigned p df = Inr out"
      by (fact res)+
    show "columns out = columns df"
      by (fact cols)
    show "getitem out label =
        Inr (map ((!) s) (filter (\<lambda>i. coerce_date (p resign) (resign ! i) = Empty) [0..<len df]))"
      if "getitem df2 label = Inr s" for label s
      using that by (rule rows)
    show "coerce_date q Empty = Empty" and "coerce_date q (Date d) \<noteq> Empty"
      and "coerce_date q (Str t) = Empty \<longleftrightarrow> q (Str t) = None"
      by (fact cells)+
  qed
qed

lemma resign_sheet_filtered:
  "drop_resigned iso_date resign_sheet =
     Inr [(''Name'', [Str ''Ann'', Str ''Cy'']),
          (''Joined'', [Date (2020, 3, 1), Date (2021, 1, 4)]),
          (''Resign'', [Empty, Empty])]"
  by code_simp

lemma resign_sheet_wf:
  "wf_frame resign_sheet
   \<and> getitem resign_sheet ''Joined'' = Inr [Str ''2020-03-01'', Str ''2019-07-15'', Str ''2021-01-04'']
   \<and> getitem resign_sheet ''Resign'' = Inr [Empty, Str ''2024-01-01'', Str ''TBD'']"
  by code_simp

theorem row_filter_witness:
  "\<exists>out. drop_resigned iso_date resign_sheet = Inr out
     \<and> columns out = [''Name'', ''Joined'', ''Resign'']
     \<and> getitem out ''Name'' = Inr [Str ''Ann'', Str ''Cy'']"
proof -
  have cols: "columns resign_sheet = [''Name'', ''Joined'', ''Resign'']"
    by code_simp
  have name: "getitem [(''Name'', [Str ''Ann'', Str ''Cy'']),
          (''Joined'', [Date (2020, 3, 1), Date (2021, 1, 4)]),
          (''Resign'', [Empty, Empty])] ''Name'' = Inr [Str ''Ann'', Str ''Cy'']"
    by code_simp
  from resign_sheet_wf row_filter[of resign_sheet _ _ iso_date]
  obtain out where out: "drop_resigned iso_date resign_sheet = Inr out"
    and "columns out = columns resign_sheet"
    by blast
  moreover from out have "getitem out ''Name'' = Inr [Str ''Ann'', Str ''Cy'']"
    using name by (simp add: resign_sheet_filtered)
  ultimately show ?thesis
    by (simp add: cols)
qed

text \<open>
  The claim as worded fails on the third row of the sheet: its \<^verbatim>\<open>Resign\<close> value
  \<^verbatim>\<open>TBD\<close> is not blank and is not a date, and the row is kept, not excluded.
\<close>

theorem row_filter_counterexample:
  "drop_resigned iso_date resign_sheet =
     Inr [(''Name'', [Str ''Ann'', Str ''Cy'']),
          (''Joined'', [Date (2020, 3, 1), Date (2021, 1, 4)]),
          (''Resign'', [Empty, Empty])]
   \<and> getitem resign_sheet ''Resign'' = Inr [Empty, Str ''2024-01-01'', Str ''TBD'']"
  by code_simp

section \<open>Properties of column arithmetic\<close>

lemma numeric_column_of: "numeric n (column_of n f)"
  by (simp add: numeric_def column_of_def list_all_iff)

lemma numeric_collapse: "numeric n s \<Longrightarrow> s = column_of n (\<lambda>i. the_num (s ! i))"
  by (auto simp: numeric_def column_of_def list_all_length intro!: nth_equalityI)

lemma floats_numeric: "numeric n s \<Longrightarrow> floats s = Inr (map the_num s)"
  by (simp add: floats_def numeric_def)

lemma floats_column_of: "floats (column_of n f) = Inr (map f [0..<n])"
  by (simp add: floats_def column_of_def list_all_iff comp_def)

lemma fillna0_numeric: "numeric n s \<Longrightarrow> fillna0 s = s"
  by (auto simp: fillna0_def numeric_def list_all_iff intro!: map_idI)

lemma fillna0_column_of: "fillna0 (column_of n f) = column_of n f"
  using fillna0_numeric[OF numeric_column_of] .

lemma zip_map_upt:
  "map (\<lambda>(x, y). h x y) (zip (map f [0..<n]) (map g [0..<n])) = map (\<lambda>i. h (f i) (g i)) [0..<n]"
  by (rule nth_equalityI) simp_all

lemma arith_column_of:
  "arith h (Column (column_of n f)) (Column (column_of n g))
     = Inr (Column (column_of n (\<lambda>i. h (f i) (g i))))"
  by (simp add: floats_column_of zip_map_upt) (simp add: column_of_def comp_def)

lemma arith_good:
  assumes "good n a" and "good n b"
  shows "\<exists>c. arith h a b = Inr c \<and> good n c \<and> (\<forall>i<n. op_at c i = h (op_at a i) (op_at b i))"
proof (cases a)
  case sa: (Scalar x)
  show ?thesis
  proof (cases b)
    case (Scalar y)
    with sa show ?thesis by simp
  next
    case (Column t)
    with assms sa show ?thesis
      by (simp add: floats_numeric) (simp add: numeric_def list_all_iff comp_def)
  qed
next
  case ca: (Column s)
  show ?thesis
  proof (cases b)
    case (Scalar y)
    with assms ca show ?thesis
      by (simp add: floats_numeric) (simp add: numeric_def list_all_iff comp_def)
  next
    case (Column t)
    with assms ca have s: "s = column_of n (\<lambda>i. the_num (s ! i))"
      and t: "t = column_of n (\<lambda>i. the_num (t ! i))"
      using numeric_collapse by auto
    have "arith h (Column s) (Column t)
        = Inr (Column (column_of n (\<lambda>i. h (the_num (s ! i)) (the_num (t ! i)))))"
      by (subst s, subst t) (rule arith_column_of)
    then show ?thesis
      unfolding ca Column by (simp add: numeric_column_of) (simp add: column_of_def)
  qed
qed

lemma foldl_add_good:
  assumes "good n a" and "list_all (good n) ops"
  shows "\<exists>c. foldl (\<lambda>acc y. case acc of Inl e \<Rightarrow> Inl e | Inr x \<Rightarrow> add x y) (Inr a) ops = Inr c
            \<and> good n c \<and> (\<forall>i<n. op_at c i = op_at a i + (\<Sum>v\<leftarrow>ops. op_at v i))"
  using assms
proof (induction ops arbitrary: a)
  case Nil
  then show ?case by simp
next
  case (Cons b ops)
  then obtain c where c: "add a b = Inr c" "good n c" "\<forall>i<n. op_at c i = op_at a i + op_at b i"
    using arith_good[of n a b "\<lambda>x y. x + y"] by (auto simp: add_def)
  from Cons.IH[OF c(2)] Cons.prems(2) obtain r where
    "foldl (\<lambda>acc y. case acc of Inl e \<Rightarrow> Inl e | Inr x \<Rightarrow> add x y) (Inr c) ops = Inr r"
    "good n r" "\<forall>i<n. op_at r i = op_at c i + (\<Sum>v\<leftarrow>ops. op_at v i)"
    by auto
  with c show ?case
    by (auto simp: algebra_simps)
qed

lemma add_all_good:
  assumes "list_all (good n) ops"
  shows "\<exists>c. add_all ops = Inr c \<and> good n c \<and> (\<forall>i<n. op_at c i = (\<Sum>v\<leftarrow>ops. op_at v i))"
proof (cases ops)
  case Nil
  then show ?thesis by (simp add: add_all_def)
next
  case (Cons a rest)
  with assms foldl_add_good[of n a rest] show ?thesis
    by (simp add: add_all_def)
qed

lemma column_of_cong: "(\<And>i. i < n \<Longrightarrow> f i = g i) \<Longrightarrow> column_of n f = column_of n g"
  by (simp add: column_of_def)

lemma assign_good:
  assumes "good n v" and "len df = n"
  shows "assign df label v = setitem df label (column_of n (op_at v))"
proof (cases v)
  case (Scalar a)
  have "replicate n (Num a) = column_of n (\<lambda>i. a)"
    by (simp add: column_of_def map_replicate_const)
  moreover have "op_at (Scalar a) = (\<lambda>i. a)"
    by (rule ext) simp
  ultimately show ?thesis
    using Scalar assms by (simp add: assign_def)
next
  case (Column s)
  with assms have "s = column_of n (\<lambda>i. the_num (s ! i))"
    using numeric_collapse by simp
  moreover have "op_at (Column s) = (\<lambda>i. the_num (s ! i))"
    by (rule ext) simp
  ultimately show ?thesis
    using Column by (simp add: assign_def)
qed

lemma length_column_of: "length (column_of n f) = n"
  by (simp add: column_of_def)

lemma df_get_good:
  assumes "\<And>s. map_of df label = Some s \<Longrightarrow> numeric n s"
  shows "good n (df_get df label)" and "op_at (df_get df label) i = value_at df label i"
  using assms by (auto simp: df_get_def value_at_def split: option.splits)

lemma row_sums_upt:
  "row_sums n (map (\<lambda>f. map f [0..<n]) fs) = map (\<lambda>i. \<Sum>f\<leftarrow>fs. f i) [0..<n]"
proof -
  have "foldl (\<lambda>acc xs. map (\<lambda>(a, x). a + x) (zip acc xs)) (map g [0..<n]) (map (\<lambda>f. map f [0..<n]) fs)
      = map (\<lambda>i. g i + (\<Sum>f\<leftarrow>fs. f i)) [0..<n]" for g :: "nat \<Rightarrow> real"
  proof (induction fs arbitrary: g)
    case Nil
    show ?case by simp
  next
    case (Cons f fs)
    show ?case
      by (simp add: zip_map_upt Cons.IH add.assoc)
  qed
  moreover have "replicate n (0::real) = map (\<lambda>i. 0) [0..<n]"
    by (simp add: map_replicate_const)
  ultimately show ?thesis
    by (simp add: row_sums_def)
qed

section \<open>Properties of the payroll summary\<close>

lemma sum_axis1_columns:
  assumes "getitems df labels = Inr (map (column_of n) fs)" and "len df = n"
  shows "sum_axis1 df labels = Inr (column_of n (\<lambda>i. \<Sum>f\<leftarrow>fs. f i))"
proof -
  have fl: "all_floats (map (column_of n) fs) = Inr (map (\<lambda>f. map f [0..<n]) fs)"
    by (induction fs) (simp_all add: floats_column_of)
  have fill: "map fillna0 (map (column_of n) fs) = map (column_of n) fs"
    by (simp add: fillna0_column_of)
  show ?thesis
    unfolding sum_axis1_def assms sum.case fill fl row_sums_upt
    by (simp add: column_of_def)
qed

lemma getitem_setitem_same: "getitem (setitem df label s) label = Inr s"
  by (simp add: getitem_def map_of_setitem)

lemma getitem_setitem_other:
  "label' \<noteq> label \<Longrightarrow> getitem (setitem df label s) label' = getitem df label'"
  by (simp add: getitem_def map_of_setitem)

lemma df_get_setitem_same: "df_get (setitem df label s) label = Column s"
  by (simp add: df_get_def map_of_setitem)

lemma df_get_setitem_other:
  "label' \<noteq> label \<Longrightarrow> df_get (setitem df label s) label' = df_get df label'"
  by (simp add: df_get_def map_of_setitem)

lemma len_setitem_column_of: "len df = n \<Longrightarrow> len (setitem df label (column_of n f)) = n"
  using len_setitem[of "column_of n f" df label] by (simp add: length_column_of)

text \<open>
  The summary of a table whose earning and deduction columns, where present, hold numbers:
  the seven assignments, with the columns they write.
\<close>

lemma payroll_summary_result:
  assumes len: "len df = n"
    and num: "\<And>label s. label \<in> set (earnings @ deductions) \<Longrightarrow> map_of df label = Some s
                \<Longrightarrow> numeric n s"
  shows "payroll_summary df =
     Inr (setitem (setitem (setitem (setitem (setitem (setitem (setitem df
            ''Gross Pay'' (column_of n (\<lambda>i. \<Sum>l\<leftarrow>earnings. value_at df l i)))
            ''EPF'' (column_of n (value_at df ''EPF'')))
            ''Socso'' (column_of n (value_at df ''Socso'')))
            ''EIS'' (column_of n (value_at df ''EIS'')))
            ''PCB'' (column_of n (value_at df ''PCB'')))
            ''Total Deduction'' (column_of n (\<lambda>i. \<Sum>l\<leftarrow>deductions. value_at df l i)))
            ''Net Pay'' (column_of n (\<lambda>i. (\<Sum>l\<leftarrow>earnings. value_at df l i)
                                           - (\<Sum>l\<leftarrow>deductions. value_at df l i))))"
proof -
  define G where "G = column_of n (\<lambda>i. \<Sum>l\<leftarrow>earnings. value_at df l i)"
  define T where "T = column_of n (\<lambda>i. \<Sum>l\<leftarrow>deductions. value_at df l i)"
  define d1 where "d1 = setitem df ''Gross Pay'' G"
  define d2 where "d2 = setitem d1 ''EPF'' (column_of n (value_at df ''EPF''))"
  define d3 where "d3 = setitem d2 ''Socso'' (column_of n (value_at df ''Socso''))"
  define d4 where "d4 = setitem d3 ''EIS'' (column_of n (value_at df ''EIS''))"
  define d5 where "d5 = setitem d4 ''PCB'' (column_of n (value_at df ''PCB''))"
  define d6 where "d6 = setitem d5 ''Total Deduction'' T"
  have get: "good n (df_get df label)" "op_at (df_get df label) = value_at df label"
    if "label \<in> set (earnings @ deductions)" for label
    using df_get_good[of df label n] num[OF that] by auto
  have "list_all (good n) (map (df_get df) earnings)"
    using get(1) by (simp add: list_all_iff)
  then obtain c where c: "add_all (map (df_get df) earnings) = Inr c" "good n c"
    "\<forall>i<n. op_at c i = (\<Sum>v\<leftarrow>map (df_get df) earnings. op_at v i)"
    using add_all_good by blast
  have "(\<Sum>v\<leftarrow>map (df_get df) earnings. op_at v i) = (\<Sum>l\<leftarrow>earnings. value_at df l i)" for i
    by (rule arg_cong[where f = sum_list]) (simp add: get(2))
  with c(3) have "column_of n (op_at c) = G"
    unfolding G_def by (intro column_of_cong) simp
  with c(2) len have a1: "assign df ''Gross Pay'' c = d1"
    by (simp add: assign_good d1_def)
  have len1: "len d1 = n"
    unfolding d1_def G_def using len by (rule len_setitem_column_of)
  have ded: "''EPF'' \<in> set (earnings @ deductions)" "''Socso'' \<in> set (earnings @ deductions)"
    "''EIS'' \<in> set (earnings @ deductions)" "''PCB'' \<in> set (earnings @ deductions)"
    by (simp_all add: deductions_def)
  have a2: "assign d1 ''EPF'' (df_get d1 ''EPF'') = d2"
    using get[OF ded(1)] len1 by (simp add: d1_def d2_def df_get_setitem_other assign_good)
  have len2: "len d2 = n"
    unfolding d2_def using len1 by (rule len_setitem_column_of)
  have a3: "assign d2 ''Socso'' (df_get d2 ''Socso'') = d3"
    using get[OF ded(2)] len2
    by (simp add: d1_def d2_def d3_def df_get_setitem_other assign_good)
  have len3: "len d3 = n"
    unfolding d3_def using len2 by (rule len_setitem_column_of)
  have a4: "assign d3 ''EIS'' (df_get d3 ''EIS'') = d4"
    using get[OF ded(3)] len3
    by (simp add: d1_def d2_def d3_def d4_def df_get_setitem_other assign_good)
  have len4: "len d4 = n"
    unfolding d4_def using len3 by (rule len_setitem_column_of)
  have a5: "assign d4 ''PCB'' (df_get d4 ''PCB'') = d5"
    using get[OF ded(4)] len4
    by (simp add: d1_def d2_def d3_def d4_def d5_def df_get_setitem_other assign_good)
  have len5: "len d5 = n"
    unfolding d5_def using len4 by (rule len_setitem_column_of)
  have "getitems d5 deductions =
      Inr (map (column_of n) [value_at df ''EPF'', value_at df ''Socso'', value_at df ''EIS'',
                              value_at df ''PCB''])"
    by (simp add: deductions_def d5_def d4_def d3_def d2_def getitem_def map_of_setitem)
  from sum_axis1_columns[OF this len5] have a6: "sum_axis1 d5 deductions = Inr T"
    by (simp add: T_def deductions_def)
  have len6: "len d6 = n"
    unfolding d6_def T_def using len5 by (rule len_setitem_column_of)
  have g6: "getitem d6 ''Gross Pay'' = Inr G" and t6: "getitem d6 ''Total Deduction'' = Inr T"
    by (simp_all add: d6_def d5_def d4_def d3_def d2_def d1_def getitem_def map_of_setitem)
  have a7: "sub (Column G) (Column T) =
      Inr (Column (column_of n (\<lambda>i. (\<Sum>l\<leftarrow>earnings. value_at df l i)
                                     - (\<Sum>l\<leftarrow>deductions. value_at df l i))))"
    unfolding sub_def G_def T_def by (rule arith_column_of)
  have "payroll_summary df =
      Inr (setitem d6 ''Net Pay'' (column_of n (\<lambda>i. (\<Sum>l\<leftarrow>earnings. value_at df l i)
                                     - (\<Sum>l\<leftarrow>deductions. value_at df l i))))"
    unfolding payroll_summary_def c(1) sum.case Let_def a1 a2 a3 a4 a5 a6 d6_def[symmetric] g6 t6 a7
    by (simp add: assign_def)
  then show ?thesis
    by (simp add: d6_def d5_def d4_def d3_def d2_def d1_def G_def T_def)
qed

section \<open>Properties of the numeric conversion\<close>

lemma columns_numeric_conversion: "columns (numeric_conversion pn cc df) = columns df"
  by (induction df) (auto simp: numeric_conversion_def columns_def)

lemma length_coerced: "length (fillna0 (to_numeric pn s)) = length s"
  by (simp add: fillna0_def to_numeric_def)

lemma len_numeric_conversion: "len (numeric_conversion pn cc df) = len df"
  by (cases df) (auto simp: numeric_conversion_def len_def length_coerced)

lemma map_of_numeric_conversion:
  "map_of (numeric_conversion pn cc df) label =
     (if label \<in> set (ignore cc) then map_of df label
      else map_option (\<lambda>s. fillna0 (to_numeric pn s)) (map_of df label))"
  by (induction df) (auto simp: numeric_conversion_def)

lemma is_Num_coerced: "is_Num (if coerce_num pn c = Empty then Num 0 else coerce_num pn c)"
  by (cases c) (auto simp: coerce_num_def split: option.splits)

lemma numeric_coerced: "numeric (length s) (fillna0 (to_numeric pn s))"
proof -
  have "list_all is_Num (fillna0 (to_numeric pn s))"
    by (induction s) (simp_all add: fillna0_def to_numeric_def is_Num_coerced)
  then show ?thesis
    by (simp add: numeric_def length_coerced)
qed

lemma the_num_coerced:
  "i < length s \<Longrightarrow>
   the_num (fillna0 (to_numeric pn s) ! i) = (case coerce_num pn (s ! i) of Num x \<Rightarrow> x | _ \<Rightarrow> 0)"
  by (cases "s ! i") (auto simp: fillna0_def to_numeric_def coerce_num_def split: option.splits)

lemma coerced_numeric: "list_all is_Num s \<Longrightarrow> fillna0 (to_numeric pn s) = s"
proof (induction s)
  case Nil
  show ?case by (simp add: fillna0_def to_numeric_def)
next
  case (Cons c s)
  then show ?case
    by (cases c) (auto simp: fillna0_def to_numeric_def coerce_num_def)
qed

lemma component_keys:
  "map norm_key (earnings @ deductions) =
     [''mbasic'', ''otamt'', ''mec'', ''all'', ''ovt'', ''ms'', ''ns'', ''icp'', ''bac'', ''bsc'',
      ''bbb'', ''bal'', ''bot'', ''csn'', ''epf'', ''socso'', ''eis'', ''pcb'']"
  by code_simp

lemma ignore_keys:
  "map norm_key [''Name'', ''Emp No'', ''Joined'', ''Resign''] = [''name'', ''empno'', ''joined'', ''resign'']"
  by code_simp

text \<open>
  No earning or deduction column is on the ignore list, whichever header the resolver has
  picked as the cost center: so all of them are made numeric.
\<close>

lemma components_not_ignored:
  assumes "match_cost_center_column cols = Some cc" and "label \<in> set (earnings @ deductions)"
  shows "label \<notin> set (ignore cc)"
proof
  assume "label \<in> set (ignore cc)"
  then have "norm_key label \<in> set (map norm_key [''Name'', ''Emp No'', ''Joined'', ''Resign''])
      \<or> norm_key label = norm_key cc"
    by (auto simp: ignore_def)
  then have "norm_key label \<in> {''name'', ''empno'', ''joined'', ''resign'', ''ccenter'',
      ''costcenter'', ''center''}"
    unfolding ignore_keys using cost_col_key[OF assms(1)] by auto
  moreover from assms(2) have "norm_key label \<in> set (map norm_key (earnings @ deductions))"
    by (simp only: set_map) (rule imageI)
  ultimately show False
    unfolding component_keys by auto
qed

lemma converted_components:
  assumes wf: "wf_frame df" and cc: "match_cost_center_column (columns df) = Some cc"
    and label: "label \<in> set (earnings @ deductions)"
  shows "map_of (numeric_conversion pn cc df) label = Some s \<Longrightarrow> numeric (len df) s"
    and "i < len df \<Longrightarrow> value_at (numeric_conversion pn cc df) label i = amount_at pn df label i"
proof -
  have ni: "label \<notin> set (ignore cc)"
    using components_not_ignored[OF cc label] .
  show "numeric (len df) s" if "map_of (numeric_conversion pn cc df) label = Some s"
  proof -
    from that ni obtain s0 where s0: "map_of df label = Some s0" "s = fillna0 (to_numeric pn s0)"
      by (auto simp: map_of_numeric_conversion)
    with wf have "length s0 = len df"
      by (simp add: wf_frame_length)
    with s0(2) numeric_coerced[of s0 pn] show ?thesis
      by simp
  qed
  show "value_at (numeric_conversion pn cc df) label i = amount_at pn df label i" if "i < len df"
  proof (cases "map_of df label")
    case None
    with ni show ?thesis
      by (simp add: value_at_def amount_at_def map_of_numeric_conversion)
  next
    case (Some s0)
    with wf that have "i < length s0"
      by (simp add: wf_frame_length)
    with Some ni show ?thesis
      by (simp add: value_at_def amount_at_def map_of_numeric_conversion the_num_coerced)
  qed
qed

lemma payroll_sheet_ok:
  "wf_frame payroll_sheet \<and> match_cost_center_column (columns payroll_sheet) = Some ''C/Center''"
  by code_simp

section \<open>Running the aggregator twice\<close>

lemma setitem_same: "map_of df label = Some s \<Longrightarrow> setitem df label s = df"
  by (simp add: setitem_def AList.update_triv)

lemma numeric_conversion_numeric:
  assumes "\<And>label s. (label, s) \<in> set df \<Longrightarrow> label \<notin> set (ignore cc) \<Longrightarrow> list_all is_Num s"
  shows "numeric_conversion pn cc df = df"
  unfolding numeric_conversion_def
  by (rule map_idI) (auto simp: coerced_numeric dest: assms)

lemma converted_columns:
  assumes "(label, s) \<in> set (numeric_conversion pn cc df)" and "label \<notin> set (ignore cc)"
  shows "list_all is_Num s"
proof -
  from assms obtain s0 where "s = fillna0 (to_numeric pn s0)"
    by (auto simp: numeric_conversion_def split: if_splits)
  with numeric_coerced[of s0 pn] show ?thesis
    by (simp add: numeric_def)
qed

lemma setitem_numeric_columns:
  assumes "\<And>label s. (label, s) \<in> set df \<Longrightarrow> label \<notin> set ig \<Longrightarrow> list_all is_Num s"
    and "(label, s) \<in> set (setitem df l (column_of n f))" and "label \<notin> set ig"
  shows "list_all is_Num s"
proof -
  from assms(2) set_setitem[of df l "column_of n f"]
  have "(label, s) = (l, column_of n f) \<or> (label, s) \<in> set df"
    by auto
  then show ?thesis
    using assms(1,3) numeric_column_of[of n f] by (auto simp: numeric_def)
qed

lemma value_at_column_of:
  "map_of df label = Some (column_of n f) \<Longrightarrow> i < n \<Longrightarrow> value_at df label i = f i"
  by (simp add: value_at_def column_of_def)

lemma earnings_labels:
  "label \<in> set earnings \<Longrightarrow>
   label \<notin> {''Gross Pay'', ''EPF'', ''Socso'', ''EIS'', ''PCB'', ''Total Deduction'', ''Net Pay''}"
  by (auto simp: earnings_def ot_amt_def)

text \<open>
  The summary of a summarised table changes nothing: the earning columns are untouched by the
  first pass, so every column the second pass writes is the column that is already there.
\<close>

lemma payroll_summary_twice:
  assumes len: "len df = n"
    and num: "\<And>label s. label \<in> set (earnings @ deductions) \<Longrightarrow> map_of df label = Some s
                \<Longrightarrow> numeric n s"
    and out: "payroll_summary df = Inr out"
  shows "payroll_summary out = Inr out"
proof -
  define G where "G = column_of n (\<lambda>i. \<Sum>l\<leftarrow>earnings. value_at df l i)"
  define E where "E = column_of n (value_at df ''EPF'')"
  define S where "S = column_of n (value_at df ''Socso'')"
  define I where "I = column_of n (value_at df ''EIS'')"
  define P where "P = column_of n (value_at df ''PCB'')"
  define T where "T = column_of n (\<lambda>i. \<Sum>l\<leftarrow>deductions. value_at df l i)"
  define N where "N = column_of n (\<lambda>i. (\<Sum>l\<leftarrow>earnings. value_at df l i)
                                       - (\<Sum>l\<leftarrow>deductions. value_at df l i))"
  have out_eq: "out = setitem (setitem (setitem (setitem (setitem (setitem (setitem df
      ''Gross Pay'' G) ''EPF'' E) ''Socso'' S) ''EIS'' I) ''PCB'' P) ''Total Deduction'' T) ''Net Pay'' N"
    using out payroll_summary_result[of df n, OF len num]
    by (simp add: G_def E_def S_def I_def P_def T_def N_def)
  have m: "map_of out = (map_of df)(''Gross Pay'' \<mapsto> G, ''EPF'' \<mapsto> E, ''Socso'' \<mapsto> S,
      ''EIS'' \<mapsto> I, ''PCB'' \<mapsto> P, ''Total Deduction'' \<mapsto> T, ''Net Pay'' \<mapsto> N)"
    unfolding out_eq by (simp add: map_of_setitem)
  have len_out: "len out = n"
    unfolding out_eq G_def E_def S_def I_def P_def T_def N_def
    by (intro len_setitem_column_of len)
  have earn: "map_of out label = map_of df label" if "label \<in> set earnings" for label
    using earnings_labels[OF that] by (simp add: m)
  have stored: "map_of out ''Gross Pay'' = Some G" "map_of out ''EPF'' = Some E"
    "map_of out ''Socso'' = Some S" "map_of out ''EIS'' = Some I" "map_of out ''PCB'' = Some P"
    "map_of out ''Total Deduction'' = Some T" "map_of out ''Net Pay'' = Some N"
    by (simp_all add: m)
  have num_out: "numeric n s" if "label \<in> set (earnings @ deductions)" "map_of out label = Some s"
    for label s
  proof (cases "label \<in> set earnings")
    case True
    with that num[of label s] show ?thesis
      by (simp add: earn)
  next
    case False
    with that have "s \<in> {E, S, I, P}"
      using stored by (auto simp: deductions_def)
    then show ?thesis
      by (auto simp: E_def S_def I_def P_def numeric_column_of)
  qed
  have ve: "value_at out l i = value_at df l i" if "l \<in> set earnings" for l i
    by (simp add: value_at_def earn[OF that])
  have vd: "value_at out l i = value_at df l i" if "l \<in> set deductions" "i < n" for l i
  proof -
    from that(1) consider "l = ''EPF''" | "l = ''Socso''" | "l = ''EIS''" | "l = ''PCB''"
      by (auto simp: deductions_def)
    then show ?thesis
      using that(2) stored
      by cases (simp_all add: value_at_column_of[of out _ n] E_def S_def I_def P_def)
  qed
  have se: "(\<Sum>l\<leftarrow>earnings. value_at out l i) = (\<Sum>l\<leftarrow>earnings. value_at df l i)" for i
    by (rule arg_cong[where f = sum_list], rule map_cong) (simp_all add: ve)
  have sd: "(\<Sum>l\<leftarrow>deductions. value_at out l i) = (\<Sum>l\<leftarrow>deductions. value_at df l i)"
    if "i < n" for i
    by (rule arg_cong[where f = sum_list], rule map_cong) (simp_all add: vd that)
  have G': "column_of n (\<lambda>i. \<Sum>l\<leftarrow>earnings. value_at out l i) = G"
    unfolding G_def by (rule column_of_cong) (rule se)
  have E': "column_of n (value_at out ''EPF'') = E"
    unfolding E_def by (rule column_of_cong) (simp add: vd deductions_def)
  have S': "column_of n (value_at out ''Socso'') = S"
    unfolding S_def by (rule column_of_cong) (simp add: vd deductions_def)
  have I': "column_of n (value_at out ''EIS'') = I"
    unfolding I_def by (rule column_of_cong) (simp add: vd deductions_def)
  have P': "column_of n (value_at out ''PCB'') = P"
    unfolding P_def by (rule column_of_cong) (simp add: vd deductions_def)
  have T': "column_of n (\<lambda>i. \<Sum>l\<leftarrow>deductions. value_at out l i) = T"
    unfolding T_def by (rule column_of_cong) (rule sd)
  have N': "column_of n (\<lambda>i. (\<Sum>l\<leftarrow>earnings. value_at out l i) - (\<Sum>l\<leftarrow>deductions. value_at out l i)) = N"
    unfolding N_def by (rule column_of_cong) (simp add: se sd)
  show ?thesis
    by (subst payroll_summary_result[of out n, OF len_out num_out])
      (simp_all add: G' E' S' I' P' T' N' setitem_same stored)
qed

lemma payroll_summary_columns:
  assumes len: "len df = n"
    and num: "\<And>label s. label \<in> set (earnings @ deductions) \<Longrightarrow> map_of df label = Some s
                \<Longrightarrow> numeric n s"
    and out: "payroll_summary df = Inr out"
    and cols: "\<And>label s. (label, s) \<in> set df \<Longrightarrow> label \<notin> set ig \<Longrightarrow> list_all is_Num s"
    and mem: "(label, s) \<in> set out" "label \<notin> set ig"
  shows "list_all is_Num s"
proof -
  from out payroll_summary_result[of df n, OF len num]
  obtain g e c i p t m where "out = setitem (setitem (setitem (setitem (setitem (setitem (setitem df
      ''Gross Pay'' (column_of n g)) ''EPF'' (column_of n e)) ''Socso'' (column_of n c))
      ''EIS'' (column_of n i)) ''PCB'' (column_of n p)) ''Total Deduction'' (column_of n t))
      ''Net Pay'' (column_of n m)"
    by simp
  with mem(1) have "(label, s) \<in> set df \<or> (\<exists>f. s = column_of n f)"
    by (auto dest!: subsetD[OF set_setitem])
  then show ?thesis
    using cols[of label s] mem(2) numeric_column_of[of n] by (auto simp: numeric_def)
qed

text \<open>
  C9. On every well-formed table, with the cost-center header the resolver has picked, the
  aggregator succeeds, and running the numeric conversion and the payroll summary again on
  its result gives that result back: the same table, column by column and row by row.
\<close>

theorem aggregator_idempotent:
  assumes "wf_frame df" and "match_cost_center_column (columns df) = Some cost_col"
  shows "\<exists>out. aggregate pn cost_col df = Inr out \<and> aggregate pn cost_col out = Inr out"
proof -
  define d where "d = numeric_conversion pn cost_col df"
  have len: "len d = len df"
    by (simp add: d_def len_numeric_conversion)
  have num: "numeric (len df) s" if "label \<in> set (earnings @ deductions)" "map_of d label = Some s"
    for label s
    using converted_components(1)[OF assms that(1)] that(2) by (simp add: d_def)
  obtain out where out: "payroll_summary d = Inr out"
    using payroll_summary_result[of d "len df", OF len num] by simp
  have twice: "payroll_summary out = Inr out"
    using len num out by (rule payroll_summary_twice)
  have "list_all is_Num s" if "(label, s) \<in> set out" "label \<notin> set (ignore cost_col)" for label s
    using len num out _ that
  proof (rule payroll_summary_columns)
    show "list_all is_Num s'" if "(l, s') \<in> set d" "l \<notin> set (ignore cost_col)" for l s'
      using that unfolding d_def by (rule converted_columns)
  qed
  then have "numeric_conversion pn cost_col out = out"
    by (rule numeric_conversion_numeric)
  with out twice show ?thesis
    by (simp add: aggregate_def d_def)
qed

lemma payroll_sheet_aggregate:
  "aggregate whole_number ''C/Center'' payroll_sheet = Inr aggregated_sheet"
  by code_simp

theorem aggregator_idempotent_witness:
  "aggregate whole_number ''C/Center'' payroll_sheet = Inr aggregated_sheet
   \<and> aggregate whole_number ''C/Center'' aggregated_sheet = Inr aggregated_sheet"
  using aggregator_idempotent[of payroll_sheet "''C/Center''" whole_number] payroll_sheet_ok
  by (auto simp: payroll_sheet_aggregate)

section \<open>Required and optional columns\<close>

lemma parse_dates_no_joined:
  "''Joined'' \<notin> set (columns df) \<Longrightarrow> parse_dates p df = Inl (KeyError ''Joined'')"
  by (simp add: parse_dates_def getitem_absent)

lemma parse_dates_no_resign:
  assumes "''Joined'' \<in> set (columns df)" and "''Resign'' \<notin> set (columns df)"
  shows "parse_dates p df = Inl (KeyError ''Resign'')"
proof -
  from assms(1) obtain joined where j: "getitem df ''Joined'' = Inr joined"
    using getitem_present by blast
  have "getitem (setitem df ''Joined'' (to_datetime p joined)) ''Resign'' = Inl (KeyError ''Resign'')"
    using assms(2) by (simp add: getitem_setitem_other getitem_absent)
  with j show ?thesis
    by (simp add: parse_dates_def)
qed

text \<open>
  C10. The row filter reads \<^verbatim>\<open>Joined\<close> and \<^verbatim>\<open>Resign\<close> with \<^verbatim>\<open>df[...]\<close>: on a sheet
  without the first it fails with the \<^verbatim>\<open>KeyError\<close> of \<^verbatim>\<open>Joined\<close>, and on a sheet with the
  first and without the second with that of \<^verbatim>\<open>Resign\<close>; the dates are not taken as missing.
  The aggregator, by contrast, succeeds on a table that has none of the earning and deduction
  columns.
\<close>

theorem date_columns_required:
  "(''Joined'' \<notin> set (columns df) \<longrightarrow> drop_resigned p df = Inl (KeyError ''Joined''))
   \<and> (''Joined'' \<in> set (columns df) \<and> ''Resign'' \<notin> set (columns df)
        \<longrightarrow> drop_resigned p df = Inl (KeyError ''Resign''))
   \<and> (set (columns df) \<inter> set (earnings @ deductions) = {}
        \<longrightarrow> (\<exists>out. aggregate pn cost_col df = Inr out
                 \<and> getitem out ''Gross Pay'' = Inr (replicate (len df) (Num 0))))"
proof (intro conjI impI)
  assume "''Joined'' \<notin> set (columns df)"
  then show "drop_resigned p df = Inl (KeyError ''Joined'')"
    by (simp add: drop_resigned_def parse_dates_no_joined)
next
  assume "''Joined'' \<in> set (columns df) \<and> ''Resign'' \<notin> set (columns df)"
  then show "drop_resigned p df = Inl (KeyError ''Resign'')"
    by (simp add: drop_resigned_def parse_dates_no_resign)
next
  assume none: "set (columns df) \<inter> set (earnings @ deductions) = {}"
  define d where "d = numeric_conversion pn cost_col df"
  have absent: "map_of d label = None" if "label \<in> set (earnings @ deductions)" for label
  proof -
    from that none have "label \<notin> set (columns d)"
      by (auto simp: d_def columns_numeric_conversion)
    then show ?thesis
      by (simp add: columns_def map_of_eq_None_iff)
  qed
  have len: "len d = len df"
    by (simp add: d_def len_numeric_conversion)
  have num: "numeric (len df) s" if "label \<in> set (earnings @ deductions)" "map_of d label = Some s"
    for label s
    using absent[OF that(1)] that(2) by simp
  have "(\<Sum>l\<leftarrow>earnings. value_at d l i) = 0" for i
  proof -
    have "map (\<lambda>l. value_at d l i) earnings = map (\<lambda>l. 0) earnings"
      by (rule map_cong) (simp_all add: value_at_def absent)
    then have "(\<Sum>l\<leftarrow>earnings. value_at d l i) = (\<Sum>l\<leftarrow>earnings. 0)"
      by (rule arg_cong)
    then show ?thesis
      by (simp add: sum_list_0)
  qed
  then have "column_of (len df) (\<lambda>i. \<Sum>l\<leftarrow>earnings. value_at d l i) = replicate (len df) (Num 0)"
    by (simp add: column_of_def map_replicate_const)
  then show "\<exists>out. aggregate pn cost_col df = Inr out
      \<and> getitem out ''Gross Pay'' = Inr (replicate (len df) (Num 0))"
    unfolding aggregate_def d_def[symmetric]
    by (subst payroll_summary_result[of d "len df", OF len num])
      (simp_all add: getitem_def map_of_setitem)
qed

lemma bare_sheet_columns:
  "''Joined'' \<in> set (columns bare_sheet) \<and> ''Resign'' \<notin> set (columns bare_sheet)
   \<and> set (columns bare_sheet) \<inter> set (earnings @ deductions) = {} \<and> len bare_sheet = 2"
  by code_simp

theorem date_columns_required_witness:
  "drop_resigned iso_date bare_sheet = Inl (KeyError ''Resign'')
   \<and> (\<exists>out. aggregate whole_number ''Dept'' bare_sheet = Inr out
         \<and> getitem out ''Gross Pay'' = Inr [Num 0, Num 0])"
  using date_columns_required[of bare_sheet iso_date whole_number "''Dept''"] bare_sheet_columns
  by (simp add: numeral_2_eq_2)

section \<open>Printing an amount and reading it back\<close>

declare digits.simps [simp del]

lemma is_digit_digit_char: "d < 10 \<Longrightarrow> is_digit (digit_char d)"
  by (simp add: is_digit_def digit_char_def)

lemma digit_char_value: "d < 10 \<Longrightarrow> (of_char (digit_char d) :: nat) - 48 = d"
  by (simp add: digit_char_def)

lemma is_digit_not_special: "is_digit c \<Longrightarrow> c \<noteq> CHR '','' \<and> c \<noteq> CHR ''-'' \<and> c \<noteq> CHR ''.''"
  by (auto simp: is_digit_def)

lemma digits_all_digit: "list_all is_digit (digits k)"
proof (induction k rule: digits.induct)
  case (1 k)
  show ?case
    by (subst digits.simps) (use 1 in \<open>simp add: is_digit_digit_char\<close>)
qed

lemma digits_not_Nil: "digits k \<noteq> []"
  by (subst digits.simps) simp

lemma nat_of_digits_snoc: "nat_of_digits (s @ [c]) = 10 * nat_of_digits s + (of_char c - 48)"
  by (simp add: nat_of_digits_def)

lemma nat_of_digits_digits: "nat_of_digits (digits k) = k"
proof (induction k rule: digits.induct)
  case (1 k)
  show ?case
  proof (cases "k < 10")
    case True
    then show ?thesis
      by (subst digits.simps) (simp add: nat_of_digits_def digit_char_value)
  next
    case False
    with 1 show ?thesis
      by (subst digits.simps) (simp add: nat_of_digits_snoc digit_char_value)
  qed
qed

lemma replace_commas_commas_rev:
  "CHR '','' \<notin> set s \<Longrightarrow> replace_commas (commas_rev s) = s"
  by (induction s rule: commas_rev.induct) (auto simp: replace_commas_def)

lemma replace_commas_grouped:
  assumes "list_all is_digit s"
  shows "replace_commas (rev (commas_rev (rev s))) = s"
proof -
  from assms have "CHR '','' \<notin> set (rev s)"
    using is_digit_not_special by (auto simp: list_all_iff)
  then have "replace_commas (commas_rev (rev s)) = rev s"
    by (rule replace_commas_commas_rev)
  then have "rev (replace_commas (commas_rev (rev s))) = s"
    by simp
  then show ?thesis
    by (simp add: replace_commas_def rev_filter)
qed

lemma replace_commas_fmt2:
  "replace_commas (fmt2 x) =
     (if x < 0 then ''-'' else []) @ digits (cents x div 100)
       @ CHR ''.'' # [digit_char (cents x mod 100 div 10), digit_char (cents x mod 10)]"
proof -
  have d: "digit_char a \<noteq> CHR '',''" if "a < 10" for a
    using is_digit_not_special[OF is_digit_digit_char[OF that]] by simp
  have app: "replace_commas (u @ v) = replace_commas u @ replace_commas v" for u v
    by (simp add: replace_commas_def)
  have "cents x mod 100 div 10 < 10"
    by (simp add: less_mult_imp_div_less)
  then have "replace_commas [digit_char (cents x mod 100 div 10), digit_char (cents x mod 10)]
      = [digit_char (cents x mod 100 div 10), digit_char (cents x mod 10)]"
    by (simp add: replace_commas_def d)
  moreover have "replace_commas ''-'' = ''-''" "replace_commas ''.'' = ''.''" "replace_commas [] = []"
    by (simp_all add: replace_commas_def)
  ultimately show ?thesis
    unfolding fmt2_def app by (simp add: replace_commas_grouped[OF digits_all_digit])
qed

lemma takeWhile_digits:
  assumes "list_all is_digit w"
  shows "takeWhile is_digit (w @ CHR ''.'' # f) = w" and "dropWhile is_digit (w @ CHR ''.'' # f) = CHR ''.'' # f"
proof -
  have "\<not> is_digit CHR ''.''"
    by (simp add: is_digit_def)
  with assms show "takeWhile is_digit (w @ CHR ''.'' # f) = w"
    and "dropWhile is_digit (w @ CHR ''.'' # f) = CHR ''.'' # f"
    by (simp_all add: list_all_iff takeWhile_append2 dropWhile_append2)
qed

lemma float_of_decimal:
  assumes w: "list_all is_digit w" "w \<noteq> []" and f: "list_all is_digit f" "f \<noteq> []"
  shows "float_of (w @ CHR ''.'' # f)
           = Some (real (nat_of_digits w) + real (nat_of_digits f) / 10 ^ length f)"
    and "float_of (CHR ''-'' # w @ CHR ''.'' # f)
           = Some (- (real (nat_of_digits w) + real (nat_of_digits f) / 10 ^ length f))"
proof -
  from w obtain c cs where c: "w = c # cs" "c \<noteq> CHR ''-''"
    using is_digit_not_special by (cases w) auto
  show "float_of (w @ CHR ''.'' # f)
      = Some (real (nat_of_digits w) + real (nat_of_digits f) / 10 ^ length f)"
    unfolding float_of_def using c(2) w f
    by (simp add: c(1)[symmetric] takeWhile_digits[OF w(1)] Let_def)
      (simp add: c(1))
  show "float_of (CHR ''-'' # w @ CHR ''.'' # f)
      = Some (- (real (nat_of_digits w) + real (nat_of_digits f) / 10 ^ length f))"
    unfolding float_of_def using w f
    by (simp add: takeWhile_digits[OF w(1)] Let_def)
qed

lemma cents_split: "k div 100 * 100 + (10 * (k mod 100 div 10) + k mod 10) = (k::nat)"
proof -
  have "k mod 10 = k mod 100 mod 10"
    by (simp add: mod_mod_cancel)
  then have "10 * (k mod 100 div 10) + k mod 10 = k mod 100"
    by simp
  then show ?thesis
    by simp
qed

text \<open>Reading a printed amount back gives the amount rounded to the cent.\<close>

lemma float_of_fmt2: "float_of (replace_commas (fmt2 x)) = Some (round2 x)"
proof -
  let ?k = "cents x"
  let ?f = "[digit_char (?k mod 100 div 10), digit_char (?k mod 10)]"
  have lt: "?k mod 100 div 10 < 10"
    by (simp add: less_mult_imp_div_less)
  then have f: "list_all is_digit ?f" "?f \<noteq> []"
    by (simp_all add: is_digit_digit_char)
  have nf: "nat_of_digits ?f = 10 * (?k mod 100 div 10) + ?k mod 10"
    using lt by (simp add: nat_of_digits_def digit_char_value)
  have "real (?k div 100) + real (10 * (?k mod 100 div 10) + ?k mod 10) / 100 = real ?k / 100"
  proof -
    have "real (?k div 100 * 100 + (10 * (?k mod 100 div 10) + ?k mod 10)) = real ?k"
      by (simp only: cents_split)
    then show ?thesis
      by (simp add: field_simps)
  qed
  then have v: "real (nat_of_digits (digits (?k div 100))) + real (nat_of_digits ?f) / 10 ^ length ?f
      = real ?k / 100"
    by (simp add: nat_of_digits_digits nf)
  show ?thesis
  proof (cases "x < 0")
    case True
    then show ?thesis
      unfolding replace_commas_fmt2 round2_def
      using float_of_decimal(2)[OF digits_all_digit digits_not_Nil f, of "?k div 100"] v
      by simp
  next
    case False
    then show ?thesis
      unfolding replace_commas_fmt2 round2_def
      using float_of_decimal(1)[OF digits_all_digit digits_not_Nil f, of "?k div 100"] v
      by simp
  qed
qed

lemma fmt2_not_Nil: "fmt2 x \<noteq> []"
  by (simp add: fmt2_def)

lemma cents_of_nat: "cents (real k) = 100 * k"
proof -
  have "\<bar>real k\<bar> * 100 = real_of_int (int (100 * k))"
    by simp
  then have "round_half_even (\<bar>real k\<bar> * 100) = int (100 * k)"
    unfolding round_half_even_def Let_def by (simp only: floor_of_int) simp
  then show ?thesis
    by (simp add: cents_def)
qed

lemma round2_of_nat: "round2 (real k) = real k"
  by (simp add: round2_def cents_of_nat)

section \<open>Properties of the invoice calculator\<close>

lemma and_then_Inr_iff: "and_then r f = Inr y \<longleftrightarrow> (\<exists>x. r = Inr x \<and> f x = Inr y)"
  by (cases r) (simp_all add: and_then_def)

lemma round2_fifty: "round2 (50 * real k) = 50 * real k" "round2 50 = 50"
  using round2_of_nat[of "50 * k"] round2_of_nat[of 50] by simp_all

lemma sum_amounts_items:
  "sum_amounts (map amount (invoice_items k w ot e h m)) =
     Inr (round2 w + round2 ot + round2 e + round2 h + 50 * real k + round2 m)"
  by (simp add: sum_amounts_def invoice_items_def fmt2_not_Nil float_of_fmt2 insurance_fee_def
      round2_fifty)

text \<open>What an invoice that has been produced was computed from.\<close>

lemma generate_invoice_Inr:
  assumes "generate_invoice df = Inr iv"
  shows "\<exists>gross_pay ot bot ot_sum bot_sum.
     getitem df ''Gross Pay'' = Inr gross_pay \<and> series_sum gross_pay = Inr (gross_sum iv)
     \<and> getitem df ot_amt = Inr ot \<and> series_sum ot = Inr ot_sum
     \<and> getitem df ''BOT'' = Inr bot \<and> series_sum bot = Inr bot_sum
     \<and> overtime_total iv = ot_sum + bot_sum"
    and "sum_norm df epf_er_names = Inr (epf_er iv)"
    and "sum_norm df eis_er_names = Inr (eis_er iv)"
    and "sum_norm df socso_er_names = Inr (socso_er iv)"
    and "hrdf_sum df = Inr (hrdf_amt iv)"
    and "headcount iv = len df"
    and "emp_stat iv = epf_er iv + socso_er iv + eis_er iv"
    and "wages iv = gross_sum iv - overtime_total iv"
    and "mgmt_fee iv = 0.15 * (wages iv + overtime_total iv + emp_stat iv + hrdf_amt iv)"
    and "items iv = invoice_items (headcount iv) (wages iv) (overtime_total iv) (emp_stat iv)
           (hrdf_amt iv) (mgmt_fee iv)"
    and "sum_amounts (map amount (items iv)) = Inr (total_excl_sst iv)"
    and "sst_amount iv = total_excl_sst iv * sst_rate"
    and "total_incl_sst iv = total_excl_sst iv + sst_amount iv"
proof -
  from assms obtain gross_pay g ot ot_sum bot bot_sum e i s h t where
    parts: "getitem df ''Gross Pay'' = Inr gross_pay" "series_sum gross_pay = Inr g"
      "getitem df ot_amt = Inr ot" "series_sum ot = Inr ot_sum"
      "getitem df ''BOT'' = Inr bot" "series_sum bot = Inr bot_sum"
      "sum_norm df epf_er_names = Inr e" "sum_norm df eis_er_names = Inr i"
      "sum_norm df socso_er_names = Inr s" "hrdf_sum df = Inr h"
      "sum_amounts (map amount (invoice_items (len df) (g - (ot_sum + bot_sum)) (ot_sum + bot_sum)
          (e + s + i) h (0.15 * (g - (ot_sum + bot_sum) + (ot_sum + bot_sum) + (e + s + i) + h)))) = Inr t"
    and iv: "iv = \<lparr>headcount = len df, gross_sum = g, overtime_total = ot_sum + bot_sum,
        epf_er = e, eis_er = i, socso_er = s, emp_stat = e + s + i, hrdf_amt = h,
        wages = g - (ot_sum + bot_sum),
        mgmt_fee = 0.15 * (g - (ot_sum + bot_sum) + (ot_sum + bot_sum) + (e + s + i) + h),
        items = invoice_items (len df) (g - (ot_sum + bot_sum)) (ot_sum + bot_sum) (e + s + i) h
          (0.15 * (g - (ot_sum + bot_sum) + (ot_sum + bot_sum) + (e + s + i) + h)),
        total_excl_sst = t, sst_amount = t * sst_rate, total_incl_sst = t + t * sst_rate\<rparr>"
    unfolding generate_invoice_def and_then_Inr_iff Let_def sst_totals_def prod.case by blast
  show "\<exists>gross_pay ot bot ot_sum bot_sum.
     getitem df ''Gross Pay'' = Inr gross_pay \<and> series_sum gross_pay = Inr (gross_sum iv)
     \<and> getitem df ot_amt = Inr ot \<and> series_sum ot = Inr ot_sum
     \<and> getitem df ''BOT'' = Inr bot \<and> series_sum bot = Inr bot_sum
     \<and> overtime_total iv = ot_sum + bot_sum"
    using parts(1-6) unfolding iv by simp
  show "sum_norm df epf_er_names = Inr (epf_er iv)" "sum_norm df eis_er_names = Inr (eis_er iv)"
    "sum_norm df socso_er_names = Inr (socso_er iv)" "hrdf_sum df = Inr (hrdf_amt iv)"
    using parts(7-10) unfolding iv by simp_all
  show "headcount iv = len df" "emp_stat iv = epf_er iv + socso_er iv + eis_er iv"
    "wages iv = gross_sum iv - overtime_total iv"
    "mgmt_fee iv = 0.15 * (wages iv + overtime_total iv + emp_stat iv + hrdf_amt iv)"
    "items iv = invoice_items (headcount iv) (wages iv) (overtime_total iv) (emp_stat iv)
           (hrdf_amt iv) (mgmt_fee iv)"
    "sst_amount iv = total_excl_sst iv * sst_rate"
    "total_incl_sst iv = total_excl_sst iv + sst_amount iv"
    unfolding iv by (simp_all only: invoice.select_convs)
  show "sum_amounts (map amount (items iv)) = Inr (total_excl_sst iv)"
    using parts(11) unfolding iv by (simp only: invoice.select_convs)
qed

text \<open>
  The invoice section succeeds when the table has the \<^verbatim>\<open>Gross Pay\<close>, the two overtime and
  the \<^verbatim>\<open>HRDF\<close> columns and the sums are numbers, and this is the invoice.
\<close>

lemma generate_invoice_result:
  assumes "getitem df ''Gross Pay'' = Inr gross_pay" and "series_sum gross_pay = Inr g"
    and "getitem df ot_amt = Inr ot" and "series_sum ot = Inr a"
    and "getitem df ''BOT'' = Inr bot_col" and "series_sum bot_col = Inr b"
    and "sum_norm df epf_er_names = Inr e" and "sum_norm df eis_er_names = Inr i"
    and "sum_norm df socso_er_names = Inr s" and "hrdf_sum df = Inr h"
  shows "generate_invoice df =
     Inr \<lparr>headcount = len df, gross_sum = g, overtime_total = a + b, epf_er = e, eis_er = i,
          socso_er = s, emp_stat = e + s + i, hrdf_amt = h, wages = g - (a + b),
          mgmt_fee = 0.15 * (g - (a + b) + (a + b) + (e + s + i) + h),
          items = invoice_items (len df) (g - (a + b)) (a + b) (e + s + i) h
                    (0.15 * (g - (a + b) + (a + b) + (e + s + i) + h)),
          total_excl_sst =
            round2 (g - (a + b)) + round2 (a + b) + round2 (e + s + i) + round2 h
            + 50 * real (len df) + round2 (0.15 * (g - (a + b) + (a + b) + (e + s + i) + h)),
          sst_amount =
            (round2 (g - (a + b)) + round2 (a + b) + round2 (e + s + i) + round2 h
             + 50 * real (len df) + round2 (0.15 * (g - (a + b) + (a + b) + (e + s + i) + h)))
            * sst_rate,
          total_incl_sst =
            (round2 (g - (a + b)) + round2 (a + b) + round2 (e + s + i) + round2 h
             + 50 * real (len df) + round2 (0.15 * (g - (a + b) + (a + b) + (e + s + i) + h)))
            + (round2 (g - (a + b)) + round2 (a + b) + round2 (e + s + i) + round2 h
               + 50 * real (len df) + round2 (0.15 * (g - (a + b) + (a + b) + (e + s + i) + h)))
              * sst_rate\<rparr>"
  unfolding generate_invoice_def assms and_then_def sum.case Let_def sum_amounts_items
    sst_totals_def prod.case
  by (rule refl)

lemma generate_invoice_no_bot:
  assumes "getitem df ''Gross Pay'' = Inr gross_pay" and "series_sum gross_pay = Inr g"
    and "getitem df ot_amt = Inr ot" and "series_sum ot = Inr a"
    and "''BOT'' \<notin> set (columns df)"
  shows "generate_invoice df = Inl (KeyError ''BOT'')"
  unfolding generate_invoice_def assms(1-4) getitem_absent[OF assms(5)] and_then_def sum.case
  by (rule refl)

lemma generate_invoice_no_hrdf:
  assumes "getitem df ''Gross Pay'' = Inr gross_pay" and "series_sum gross_pay = Inr g"
    and "getitem df ot_amt = Inr ot" and "series_sum ot = Inr a"
    and "getitem df ''BOT'' = Inr bot_col" and "series_sum bot_col = Inr b"
    and "sum_norm df epf_er_names = Inr e" and "sum_norm df eis_er_names = Inr i"
    and "sum_norm df socso_er_names = Inr s" and "''HRDF'' \<notin> set (columns df)"
  shows "generate_invoice df = Inl AttributeError"
proof -
  from assms(10) have "hrdf_sum df = Inl AttributeError"
    using map_of_eq_None_iff[of df "''HRDF''"] by (simp add: hrdf_sum_def df_get_def columns_def)
  then show ?thesis
    unfolding generate_invoice_def assms(1-9) and_then_def sum.case by simp
qed

lemma digit_chars:
  "digit_char 0 = CHR ''0''" "digit_char 1 = CHR ''1''" "digit_char 2 = CHR ''2''"
  "digit_char 3 = CHR ''3''" "digit_char 4 = CHR ''4''" "digit_char 5 = CHR ''5''"
  "digit_char 6 = CHR ''6''" "digit_char 7 = CHR ''7''" "digit_char 8 = CHR ''8''"
  "digit_char 9 = CHR ''9''" "digit_char (Suc 0) = CHR ''1''"
  by code_simp+

lemma fmt2_examples:
  "fmt2 10000 = ''10,000.00''" "fmt2 500 = ''500.00''" "fmt2 1200 = ''1,200.00''"
  "fmt2 100 = ''100.00''" "fmt2 50 = ''50.00''" "fmt2 250 = ''250.00''" "fmt2 1770 = ''1,770.00''"
  by (simp_all add: fmt2_def cents_def round_half_even_def digits.simps digit_chars)

lemma invoice_sheet_parts:
  "getitem invoice_sheet ''Gross Pay'' = Inr [Num 2100, Num 2100, Num 2100, Num 2100, Num 2100]"
  "series_sum [Num 2100, Num 2100, Num 2100, Num 2100, Num 2100] = Inr 10500"
  "getitem invoice_sheet ot_amt = Inr [Num 100, Num 100, Num 100, Num 0, Num 0]"
  "series_sum [Num 100, Num 100, Num 100, Num 0, Num 0] = Inr 300"
  "getitem invoice_sheet ''BOT'' = Inr [Num 0, Num 0, Num 0, Num 100, Num 100]"
  "series_sum [Num 0, Num 0, Num 0, Num 100, Num 100] = Inr 200"
  "sum_norm invoice_sheet epf_er_names = Inr 800"
  "sum_norm invoice_sheet eis_er_names = Inr 100"
  "sum_norm invoice_sheet socso_er_names = Inr 300"
  "hrdf_sum invoice_sheet = Inr 100"
  by code_simp+

lemma invoice_sheet_len: "len invoice_sheet = 5"
  by code_simp

lemma round2_examples:
  "round2 10000 = 10000" "round2 500 = 500" "round2 1200 = 1200" "round2 100 = 100"
  "round2 1770 = 1770"
  using round2_of_nat[of 10000] round2_of_nat[of 500] round2_of_nat[of 1200] round2_of_nat[of 100]
    round2_of_nat[of 1770]
  by simp_all

lemma invoice_sheet_invoice: "generate_invoice invoice_sheet = Inr sheet_invoice"
  unfolding generate_invoice_result[OF invoice_sheet_parts] invoice_sheet_len sheet_invoice_def
  by (simp add: round2_examples sst_rate_def)

lemma aggregated_sheet_parts:
  "getitem aggregated_sheet ''Gross Pay'' = Inr [Num 3200, Num 1500]"
  "series_sum [Num 3200, Num 1500] = Inr 4700"
  "getitem aggregated_sheet ot_amt = Inr [Num 200, Num 0]"
  "series_sum [Num 200, Num 0] = Inr 200"
  by code_simp+

lemma aggregated_sheet_no_bot: "''BOT'' \<notin> set (columns aggregated_sheet)"
  by code_simp

lemma no_hrdf_sheet_parts:
  "getitem no_hrdf_sheet ''Gross Pay'' = Inr [Num 2100, Num 2100, Num 2100, Num 2100, Num 2100]"
  "series_sum [Num 2100, Num 2100, Num 2100, Num 2100, Num 2100] = Inr 10500"
  "getitem no_hrdf_sheet ot_amt = Inr [Num 100, Num 100, Num 100, Num 0, Num 0]"
  "series_sum [Num 100, Num 100, Num 100, Num 0, Num 0] = Inr 300"
  "getitem no_hrdf_sheet ''BOT'' = Inr [Num 0, Num 0, Num 0, Num 100, Num 100]"
  "series_sum [Num 0, Num 0, Num 0, Num 100, Num 100] = Inr 200"
  "sum_norm no_hrdf_sheet epf_er_names = Inr 800"
  "sum_norm no_hrdf_sheet eis_er_names = Inr 100"
  "sum_norm no_hrdf_sheet socso_er_names = Inr 300"
  "''HRDF'' \<notin> set (columns no_hrdf_sheet)"
  by code_simp+

text \<open>
  C4, at the inputs where the code departs from it. The table aggregated from
  \<open>payroll_sheet\<close> has no \<^verbatim>\<open>BOT\<close> column: the aggregator took the column as zero, and the
  invoice section fails with the \<^verbatim>\<open>KeyError\<close> of \<^verbatim>\<open>df["BOT"]\<close>. A table with both overtime
  columns and no \<^verbatim>\<open>HRDF\<close> column fails with the \<^verbatim>\<open>AttributeError\<close> of
  \<^verbatim>\<open>df.get("HRDF", 0).sum()\<close>. In both cases no invoice is produced.
\<close>

theorem invoice_missing_optional_column:
  "aggregate whole_number ''C/Center'' payroll_sheet = Inr aggregated_sheet
   \<and> generate_invoice aggregated_sheet = Inl (KeyError ''BOT'')
   \<and> generate_invoice no_hrdf_sheet = Inl AttributeError"
  using payroll_sheet_aggregate
    generate_invoice_no_bot[OF aggregated_sheet_parts aggregated_sheet_no_bot]
    generate_invoice_no_hrdf[OF no_hrdf_sheet_parts]
  by simp



text \<open>
  C6, as the code has it. Every invoice has seven lines, numbered 1 to 7. Exactly one of
  them is a placeholder, line 5 (the medical fee), whose unit price and amount are blank. On
  each of the other six the amount is the quantity times the unit price; among them line 6,
  the insurance claim, whose quantity is the headcount, whose unit price is the insurance
  fee of 50 and whose amount is the fee times the headcount. The total before tax is the sum
  of the amounts that the lines with a printed amount read as, added from zero in the order
  of the lines; the blank line is passed over.
\<close>

theorem invoice_lines_and_total:
  assumes "generate_invoice df = Inr iv"
  shows "map item_no (items iv) = [1, 2, 3, 4, 5, 6, 7]
     \<and> filter placeholder (items iv) = [items iv ! 4]
     \<and> description (items iv ! 4) = ''Medical Fee (Excl. Mgmt Fee)''
     \<and> list_all line_consistent (filter (\<lambda>it. \<not> placeholder it) (items iv))
     \<and> items iv ! 5 = \<lparr>item_no = 6, description = ''Insurance Claim (Excl. Mgmt Fee)'',
                          qty = headcount iv, u_price = fmt2 (real insurance_fee),
                          amount = fmt2 (real (insurance_fee * headcount iv))\<rparr>
     \<and> insurance_fee = 50
     \<and> total_excl_sst iv =
         foldl (\<lambda>acc it. acc + amount_value it) 0 (filter (\<lambda>it. amount it \<noteq> []) (items iv))"
proof -
  note iv = generate_invoice_Inr[OF assms]
  let ?k = "headcount iv"
  have fifty: "real insurance_fee = 50" "real (insurance_fee * ?k) = 50 * real ?k"
    by (simp_all add: insurance_fee_def)
  note r = round2_fifty
  have total: "total_excl_sst iv =
      round2 (wages iv) + round2 (overtime_total iv) + round2 (emp_stat iv)
      + round2 (hrdf_amt iv) + 50 * real ?k + round2 (mgmt_fee iv)"
    using iv(11) unfolding iv(10) sum_amounts_items by simp
  have nums: "map item_no (items iv) = [1, 2, 3, 4, 5, 6, 7]"
    unfolding iv(10) by (simp add: invoice_items_def)
  have ph: "filter placeholder (items iv) = [items iv ! 4]"
    "description (items iv ! 4) = ''Medical Fee (Excl. Mgmt Fee)''"
    unfolding iv(10) by (simp_all add: invoice_items_def placeholder_def fmt2_not_Nil)
  have cons: "list_all line_consistent (filter (\<lambda>it. \<not> placeholder it) (items iv))"
    unfolding iv(10) invoice_items_def fifty
    by (simp add: placeholder_def fmt2_not_Nil line_consistent_def float_of_fmt2 r)
  have six: "items iv ! 5 = \<lparr>item_no = 6, description = ''Insurance Claim (Excl. Mgmt Fee)'',
      qty = ?k, u_price = fmt2 (real insurance_fee), amount = fmt2 (real (insurance_fee * ?k))\<rparr>"
    unfolding iv(10) invoice_items_def by simp
  have "foldl (\<lambda>acc it. acc + amount_value it) 0 (filter (\<lambda>it. amount it \<noteq> []) (items iv)) =
      round2 (wages iv) + round2 (overtime_total iv) + round2 (emp_stat iv)
      + round2 (hrdf_amt iv) + 50 * real ?k + round2 (mgmt_fee iv)"
    unfolding iv(10) invoice_items_def fifty
    by (simp add: amount_value_def float_of_fmt2 r fmt2_not_Nil)
  with total have "total_excl_sst iv =
      foldl (\<lambda>acc it. acc + amount_value it) 0 (filter (\<lambda>it. amount it \<noteq> []) (items iv))"
    by simp
  moreover have "insurance_fee = 50"
    by (simp add: insurance_fee_def)
  ultimately show ?thesis
    using nums ph cons six by blast
qed

theorem invoice_lines_and_total_witness:
  "generate_invoice invoice_sheet = Inr sheet_invoice
   \<and> map amount (items sheet_invoice) =
       [''10,000.00'', ''500.00'', ''1,200.00'', ''100.00'', [], ''250.00'', ''1,770.00'']
   \<and> total_excl_sst sheet_invoice = 10000 + 500 + 1200 + 100 + 250 + 1770"
proof -
  have "map amount (items sheet_invoice) =
      [''10,000.00'', ''500.00'', ''1,200.00'', ''100.00'', [], ''250.00'', ''1,770.00'']"
    by (simp add: sheet_invoice_def invoice_items_def insurance_fee_def fmt2_examples)
  then show ?thesis
    using invoice_lines_and_total[OF invoice_sheet_invoice] invoice_sheet_invoice
    by (simp add: sheet_invoice_def)
qed

text \<open>
  The claim as worded, two placeholder lines that contribute zero, fails on the invoice of
  \<open>invoice_sheet\<close>: one line only is blank, and the insurance claim line carries the
  computed amount 250.00, which is part of the total 13820.
\<close>

theorem invoice_lines_counterexample:
  "generate_invoice invoice_sheet = Inr sheet_invoice
   \<and> map (\<lambda>it. (qty it, u_price it, amount it)) (items sheet_invoice) =
       [(1, ''10,000.00'', ''10,000.00''), (1, ''500.00'', ''500.00''),
        (1, ''1,200.00'', ''1,200.00''), (1, ''100.00'', ''100.00''), (1, [], []),
        (5, ''50.00'', ''250.00''), (1, ''1,770.00'', ''1,770.00'')]
   \<and> length (filter placeholder (items sheet_invoice)) = 1
   \<and> total_excl_sst sheet_invoice = 13820"
  using invoice_sheet_invoice
  by (simp add: sheet_invoice_def invoice_items_def insurance_fee_def fmt2_examples
      placeholder_def)

section \<open>The tax and its rounding\<close>

lemma invoice_tax_exact:
  assumes "generate_invoice df = Inr iv"
  shows "(sst_amount iv, total_incl_sst iv) =
     sst_totals (\<lambda>x y. x * y) (\<lambda>x y. x + y) sst_rate (total_excl_sst iv)"
  using generate_invoice_Inr(12,13)[OF assms] by (simp add: sst_totals_def Let_def)

lemma tax_rounding:
  fixes u t rate s p :: real
  assumes u: "0 \<le> u" "u \<le> 1 / 2"
    and rate: "\<bar>rate - 2 / 25\<bar> \<le> u * (2 / 25)"
    and s: "\<bar>s - t * rate\<bar> \<le> u * \<bar>t * rate\<bar>"
    and p: "\<bar>p - (t + s)\<bar> \<le> u * \<bar>t + s\<bar>"
  shows "\<bar>s - 2 / 25 * t\<bar> \<le> u * \<bar>t\<bar>" and "\<bar>p - 27 / 25 * t\<bar> \<le> 2 * u * \<bar>t\<bar>"
proof -
  define A where "A = \<bar>t\<bar>"
  define U where "U = u * A"
  define V where "V = u * U"
  define x where "x = t * rate"
  define y where "y = 2 / 25 * t"
  have A: "0 \<le> A"
    by (simp add: A_def)
  have U: "0 \<le> U"
    using u(1) A by (simp add: U_def)
  have V: "0 \<le> V" "V \<le> U / 2"
    using u U mult_right_mono[of u "1 / 2" U] by (simp_all add: V_def)
  have "\<bar>x - y\<bar> = A * \<bar>rate - 2 / 25\<bar>"
    by (simp add: A_def x_def y_def abs_mult[symmetric] algebra_simps)
  also have "\<dots> \<le> A * (u * (2 / 25))"
    using rate A by (rule mult_left_mono)
  finally have tr: "\<bar>x - y\<bar> \<le> 2 / 25 * U"
    by (simp add: U_def algebra_simps)
  have yA: "\<bar>y\<bar> = 2 / 25 * A"
    by (simp add: A_def y_def abs_mult)
  with tr have trabs: "\<bar>x\<bar> \<le> 2 / 25 * A + 2 / 25 * U"
    by linarith
  have "u * \<bar>x\<bar> \<le> u * (2 / 25 * A + 2 / 25 * U)"
    using trabs u(1) by (rule mult_left_mono)
  also have "\<dots> = 2 / 25 * U + 2 / 25 * V"
    by (simp add: U_def V_def algebra_simps)
  finally have "\<bar>s - x\<bar> \<le> 2 / 25 * U + 2 / 25 * V"
    using s by (simp add: x_def)
  with tr V have s1: "\<bar>s - y\<bar> \<le> 1 / 5 * U"
    by linarith
  with U show "\<bar>s - 2 / 25 * t\<bar> \<le> u * \<bar>t\<bar>"
    by (simp add: U_def A_def y_def)
  have tA: "\<bar>t\<bar> = A"
    by (simp add: A_def)
  have "\<bar>t + s\<bar> \<le> 27 / 25 * A + 1 / 5 * U"
    using s1 yA tA by linarith
  then have "u * \<bar>t + s\<bar> \<le> u * (27 / 25 * A + 1 / 5 * U)"
    using u(1) by (rule mult_left_mono)
  also have "\<dots> = 27 / 25 * U + 1 / 5 * V"
    by (simp add: U_def V_def algebra_simps)
  finally have "\<bar>p - (t + s)\<bar> \<le> 27 / 25 * U + 1 / 5 * V"
    using p by linarith
  moreover have "27 / 25 * t = t + y"
    by (simp add: y_def)
  ultimately have "\<bar>p - 27 / 25 * t\<bar> \<le> 2 * U"
    using s1 V U by linarith
  then show "\<bar>p - 27 / 25 * t\<bar> \<le> 2 * u * \<bar>t\<bar>"
    by (simp add: U_def A_def)
qed

text \<open>
  C8. The tax is the product of the total before tax and the rate, and the total after tax is
  the sum of the total before tax and the tax, in whatever arithmetic the two operations are
  carried out; on every invoice of this development they are exact. When the rate is 0.08
  up to a relative error \<open>u\<close> and the product and the sum are each rounded with a relative
  error of at most \<open>u\<close>, as binary floating point rounds them with \<open>u = 2\<^sup>-\<^sup>5\<^sup>3\<close> short of
  overflow and underflow, the tax is within \<open>u\<close> times the total of 0.08 times the total and
  the total after tax is within \<open>2 u\<close> times the total of 1.08 times the total: this is the
  rounding tolerance, for a total of either sign.
\<close>

theorem invoice_tax:
  assumes "0 \<le> u" and "u \<le> 1 / 2"
    and "\<bar>rate - 0.08\<bar> \<le> u * 0.08"
    and "\<bar>mul_op t rate - t * rate\<bar> \<le> u * \<bar>t * rate\<bar>"
    and "\<bar>add_op t (mul_op t rate) - (t + mul_op t rate)\<bar> \<le> u * \<bar>t + mul_op t rate\<bar>"
  shows "sst_totals mul_op add_op rate t = (mul_op t rate, add_op t (mul_op t rate))
     \<and> \<bar>fst (sst_totals mul_op add_op rate t) - 0.08 * t\<bar> \<le> u * \<bar>t\<bar>
     \<and> \<bar>snd (sst_totals mul_op add_op rate t) - t * 1.08\<bar> \<le> 2 * u * \<bar>t\<bar>
     \<and> (generate_invoice df = Inr iv \<longrightarrow>
          (sst_amount iv, total_incl_sst iv) =
            sst_totals (\<lambda>x y. x * y) (\<lambda>x y. x + y) sst_rate (total_excl_sst iv))"
proof -
  have rate: "\<bar>rate - 2 / 25\<bar> \<le> u * (2 / 25)"
    using assms(3) by simp
  note bounds = tax_rounding[OF assms(1,2) rate assms(4,5)]
  have eq: "sst_totals mul_op add_op rate t = (mul_op t rate, add_op t (mul_op t rate))"
    by (simp add: sst_totals_def Let_def)
  have "\<bar>fst (sst_totals mul_op add_op rate t) - 0.08 * t\<bar> \<le> u * \<bar>t\<bar>"
    unfolding eq using bounds(1) by simp
  moreover have "\<bar>snd (sst_totals mul_op add_op rate t) - t * 1.08\<bar> \<le> 2 * u * \<bar>t\<bar>"
    unfolding eq using bounds(2) by simp
  ultimately show ?thesis
    using eq invoice_tax_exact[of df iv] by blast
qed

theorem invoice_tax_witness:
  "\<bar>snd (sst_totals (\<lambda>x y. x * y) (\<lambda>x y. x + y) 0.08 13820) - 13820 * 1.08\<bar>
     \<le> 2 * (1 / 2 ^ 53) * \<bar>13820\<bar>
   \<and> (sst_amount sheet_invoice, total_incl_sst sheet_invoice) =
       sst_totals (\<lambda>x y. x * y) (\<lambda>x y. x + y) sst_rate (total_excl_sst sheet_invoice)"
  using invoice_tax[of "1 / 2 ^ 53" "0.08" "\<lambda>x y. x * y" 13820 "\<lambda>x y. x + y" invoice_sheet
      sheet_invoice] invoice_sheet_invoice
  by simp

section \<open>A repeated column label\<close>

lemma convert_numeric_distinct:
  "distinct (num_cols cc df) \<Longrightarrow> convert_numeric pn cc df = Inr (numeric_conversion pn cc df)"
  by (simp add: convert_numeric_def)

lemma convert_numeric_repeated:
  "\<not> distinct (num_cols cc df) \<Longrightarrow>
   convert_numeric pn cc df = Inl (ValueError ''repeated column label'')"
  by (simp add: convert_numeric_def)

lemma two_epf_sheet_loaded:
  "load_columns two_epf_sheet =
     [(''Name'', [Str ''Ann'', Str ''Cy'']),
      (''C/Center'', [Str ''HQ'', Str ''HQ'']),
      (''Joined'', [Date (2020, 3, 1), Date (2021, 1, 4)]),
      (''Resign'', [Empty, Empty]),
      (''M/Basic'', [Num 3000, Num 1500]),
      (''EPF'', [Num 300, Num 165]),
      (''EPF'', [Num 390, Num 195])]"
  by code_simp

lemma two_epf_sheet_steps:
  "find_cost_col (columns (load_columns two_epf_sheet)) = Inr ''C/Center''"
  "select_department ''C/Center'' (Str ''HQ'') (load_columns two_epf_sheet)
     = Inr (load_columns two_epf_sheet)"
  "drop_resigned iso_date (load_columns two_epf_sheet) = Inr (load_columns two_epf_sheet)"
  "\<not> distinct (num_cols ''C/Center'' (load_columns two_epf_sheet))"
  unfolding two_epf_sheet_loaded by code_simp+

text \<open>
  C1, at an input where the code departs from it. The uploaded sheet has the headers
  \<^verbatim>\<open>EPF`EE\<close> and \<^verbatim>\<open>EPF\<close>. Cleaning turns the first into \<^verbatim>\<open>EPFEE\<close>, the renaming of
  line 80 turns that into \<^verbatim>\<open>EPF\<close>, and the mask of line 81, taken from the labels before
  the renaming, drops neither column: the table has two \<^verbatim>\<open>EPF\<close> columns. The department
  selection and the row filter pass, and the numeric conversion of line 117 raises
  \<^verbatim>\<open>ValueError\<close>: no Gross Pay, Total Deduction or Net Pay is computed.
\<close>

theorem repeated_label_fails:
  "columns (load_columns two_epf_sheet) =
     [''Name'', ''C/Center'', ''Joined'', ''Resign'', ''M/Basic'', ''EPF'', ''EPF'']
   \<and> payroll_table iso_date whole_number (Str ''HQ'') two_epf_sheet =
       Inl (ValueError ''repeated column label'')"
proof -
  have "columns (load_columns two_epf_sheet) =
      [''Name'', ''C/Center'', ''Joined'', ''Resign'', ''M/Basic'', ''EPF'', ''EPF'']"
    unfolding two_epf_sheet_loaded by code_simp
  moreover have "payroll_table iso_date whole_number (Str ''HQ'') two_epf_sheet =
      Inl (ValueError ''repeated column label'')"
    unfolding payroll_table_def Let_def two_epf_sheet_steps(1) and_then_def sum.case
      two_epf_sheet_steps(2) two_epf_sheet_steps(3)
      convert_numeric_repeated[OF two_epf_sheet_steps(4)]
    by (rule refl)
  ultimately show ?thesis
    by simp
qed

end
